theory Spec2Isabelle
  imports Complex_Main
begin

section \<open>JavaScript values used by the board code\<close>

text \<open>
  The sources are TypeScript (\<^verbatim>\<open>src/frontend/board.ts\<close>, \<^verbatim>\<open>src/frontend/board_area.ts\<close>).
  A JavaScript \<^verbatim>\<open>number\<close> is modelled by \<open>jsnum\<close>: a finite value, the two infinities or
  NaN.  Finite arithmetic is exact real arithmetic (the rounding of IEEE doubles and the
  sign of zero are not modelled); the special values follow IEEE 754, which is what decides
  the outcome of a division by zero or of arithmetic on a failed \<^verbatim>\<open>parseInt\<close>.
  Strings are \<open>char list\<close>s; a \<open>char\<close> stands for the UTF-16 code unit of the same number,
  so the model covers the strings whose code points are below 256 (ASCII and Latin-1).
\<close>

datatype jsnum = Num real | PosInf | NegInf | NaN

datatype error = TypeError
  \<comment> \<open>reading a property of \<^verbatim>\<open>undefined\<close> raises a TypeError\<close>

instantiation jsnum :: "{plus, uminus, minus, times, inverse}"
begin

fun plus_jsnum :: "jsnum \<Rightarrow> jsnum \<Rightarrow> jsnum" where
  "plus_jsnum NaN _ = NaN"
| "plus_jsnum _ NaN = NaN"
| "plus_jsnum (Num a) (Num b) = Num (a + b)"
| "plus_jsnum PosInf NegInf = NaN"
| "plus_jsnum NegInf PosInf = NaN"
| "plus_jsnum PosInf _ = PosInf"
| "plus_jsnum _ PosInf = PosInf"
| "plus_jsnum NegInf _ = NegInf"
| "plus_jsnum _ NegInf = NegInf"

fun uminus_jsnum :: "jsnum \<Rightarrow> jsnum" where
  "uminus_jsnum (Num a) = Num (- a)"
| "uminus_jsnum PosInf = NegInf"
| "uminus_jsnum NegInf = PosInf"
| "uminus_jsnum NaN = NaN"

definition minus_jsnum :: "jsnum \<Rightarrow> jsnum \<Rightarrow> jsnum" where
  "minus_jsnum a b = a + (- b)"

fun times_jsnum :: "jsnum \<Rightarrow> jsnum \<Rightarrow> jsnum" where
  "times_jsnum NaN _ = NaN"
| "times_jsnum _ NaN = NaN"
| "times_jsnum (Num a) (Num b) = Num (a * b)"
| "times_jsnum PosInf (Num b) = (if b = 0 then NaN else if 0 < b then PosInf else NegInf)"
| "times_jsnum NegInf (Num b) = (if b = 0 then NaN else if 0 < b then NegInf else PosInf)"
| "times_jsnum (Num a) PosInf = (if a = 0 then NaN else if 0 < a then PosInf else NegInf)"
| "times_jsnum (Num a) NegInf = (if a = 0 then NaN else if 0 < a then NegInf else PosInf)"
| "times_jsnum PosInf PosInf = PosInf"
| "times_jsnum NegInf NegInf = PosInf"
| "times_jsnum PosInf NegInf = NegInf"
| "times_jsnum NegInf PosInf = NegInf"

fun divide_jsnum :: "jsnum \<Rightarrow> jsnum \<Rightarrow> jsnum" where
  "divide_jsnum NaN _ = NaN"
| "divide_jsnum _ NaN = NaN"
| "divide_jsnum (Num a) (Num b) =
     (if b = 0 then (if a = 0 then NaN else if 0 < a then PosInf else NegInf)
      else Num (a / b))"
| "divide_jsnum (Num a) _ = Num 0"
| "divide_jsnum PosInf (Num b) = (if 0 \<le> b then PosInf else NegInf)"
| "divide_jsnum NegInf (Num b) = (if 0 \<le> b then NegInf else PosInf)"
| "divide_jsnum _ _ = NaN"

definition inverse_jsnum :: "jsnum \<Rightarrow> jsnum" where
  "inverse_jsnum a = divide (Num 1) (a::jsnum)"

instance ..

end

text \<open>\<^verbatim>\<open>Math.pow(x, y)\<close> for a positive exponent that is not an integer (the code only uses
  \<^verbatim>\<open>1 / 1.7\<close>): a negative finite base gives NaN, both infinities give \<^verbatim>\<open>Infinity\<close>.\<close>

fun Math_pow :: "jsnum \<Rightarrow> real \<Rightarrow> jsnum" where
  "Math_pow NaN y = NaN"
| "Math_pow PosInf y = PosInf"
| "Math_pow NegInf y = PosInf"
| "Math_pow (Num a) y = (if a < 0 then NaN else Num (a powr y))"

fun Math_sin :: "jsnum \<Rightarrow> jsnum" where
  "Math_sin (Num a) = Num (sin a)"
| "Math_sin _ = NaN"

fun Math_cos :: "jsnum \<Rightarrow> jsnum" where
  "Math_cos (Num a) = Num (cos a)"
| "Math_cos _ = NaN"

text \<open>\<^verbatim>\<open>Math.round\<close> rounds to the nearest integer, ties towards \<open>+\<infinity>\<close>.\<close>

fun Math_round :: "jsnum \<Rightarrow> jsnum" where
  "Math_round (Num a) = Num (of_int \<lfloor>a + 1 / 2\<rfloor>)"
| "Math_round x = x"

text \<open>\<^verbatim>\<open>Math.atan2(y, x)\<close> on finite arguments (a zero argument counts as \<open>+0\<close>).\<close>

definition atan2 :: "real \<Rightarrow> real \<Rightarrow> real" where
  "atan2 y x =
     (if 0 < x then arctan (y / x)
      else if x < 0 then (if 0 \<le> y then arctan (y / x) + pi else arctan (y / x) - pi)
      else if 0 < y then pi / 2
      else if y < 0 then - (pi / 2)
      else 0)"

fun Math_atan2 :: "jsnum \<Rightarrow> jsnum \<Rightarrow> jsnum" where
  "Math_atan2 NaN _ = NaN"
| "Math_atan2 _ NaN = NaN"
| "Math_atan2 (Num y) (Num x) = Num (atan2 y x)"
| "Math_atan2 PosInf (Num x) = Num (pi / 2)"
| "Math_atan2 NegInf (Num x) = Num (- (pi / 2))"
| "Math_atan2 (Num y) PosInf = Num 0"
| "Math_atan2 (Num y) NegInf = (if 0 \<le> y then Num pi else Num (- pi))"
| "Math_atan2 PosInf PosInf = Num (pi / 4)"
| "Math_atan2 PosInf NegInf = Num (3 * pi / 4)"
| "Math_atan2 NegInf PosInf = Num (- (pi / 4))"
| "Math_atan2 NegInf NegInf = Num (- (3 * pi / 4))"

definition Math_PI :: jsnum where
  "Math_PI = Num pi"

subsection \<open>Strings and arrays\<close>

text \<open>An array read \<^verbatim>\<open>xs[i]\<close>; out of range it is \<^verbatim>\<open>undefined\<close> (\<open>None\<close>).\<close>

definition at_index :: "'a list \<Rightarrow> nat \<Rightarrow> 'a option" where
  "at_index xs i = (if i < length xs then Some (xs ! i) else None)"

text \<open>\<^verbatim>\<open>s.split(sep)\<close> for a one-character separator: always at least one field.\<close>

fun js_split :: "char \<Rightarrow> string \<Rightarrow> string list" where
  "js_split sep [] = [[]]"
| "js_split sep (c # cs) =
     (if c = sep then [] # js_split sep cs
      else (case js_split sep cs of
              [] \<Rightarrow> [[c]]
            | r # rs \<Rightarrow> (c # r) # rs))"

text \<open>\<^verbatim>\<open>s.slice(i, j)\<close> for \<open>0 \<le> i \<le> j\<close>.\<close>

definition slice :: "string \<Rightarrow> nat \<Rightarrow> nat \<Rightarrow> string" where
  "slice s i j = take (j - i) (drop i s)"

definition digitValue :: "char \<Rightarrow> nat option" where
  "digitValue c =
     (if (48::nat) \<le> of_char c \<and> of_char c \<le> (57::nat) then Some (of_char c - 48) else None)"

text \<open>\<^verbatim>\<open>parseInt\<close> of a one-character string or of \<^verbatim>\<open>undefined\<close>: a decimal digit or NaN.\<close>

definition parseInt :: "char option \<Rightarrow> jsnum" where
  "parseInt c =
     (case c of None \<Rightarrow> NaN
      | Some d \<Rightarrow> (case digitValue d of None \<Rightarrow> NaN | Some n \<Rightarrow> Num (real n)))"

definition charCodeAt0 :: "string \<Rightarrow> jsnum" where
  "charCodeAt0 s = (case s of [] \<Rightarrow> NaN | c # _ \<Rightarrow> Num (real (of_char c)))"

definition digitChar :: "nat \<Rightarrow> char" where
  "digitChar d = ''0123456789'' ! d"

text \<open>\<^verbatim>\<open>n.toString()\<close> for a natural number: its decimal digits.\<close>

fun toString :: "nat \<Rightarrow> string" where
  "toString n = (if n < 10 then [digitChar n] else toString (n div 10) @ [digitChar (n mod 10)])"

declare toString.simps [simp del]

text \<open>\<^verbatim>\<open>c.toUpperCase()\<close> of a one-character string, as the list of the code units of the
  result. Below 256 the letters with an upper-case form are \<^verbatim>\<open>a\<close>..\<^verbatim>\<open>z\<close>, the micro sign (181,
  to Greek capital mu, 924), the sharp s (223, to \<^verbatim>\<open>SS\<close>), 224..254 without the division sign
  247 (to the letter 32 below) and 255 (to 376); every other character is its own
  upper-case form.\<close>

definition toUpperCase :: "char \<Rightarrow> nat list" where
  "toUpperCase c =
     (let n = (of_char c :: nat)
      in if 97 \<le> n \<and> n \<le> 122 then [n - 32]
         else if n = 181 then [924]
         else if n = 223 then [83, 83]
         else if (224 \<le> n \<and> n \<le> 246) \<or> (248 \<le> n \<and> n \<le> 254) then [n - 32]
         else if n = 255 then [376]
         else [n])"

section \<open>board.ts: squares and directions\<close>

definition SQUARE_SIZE :: jsnum where
  "SQUARE_SIZE = Num 45"

definition BEAM_SPREAD :: jsnum where
  "BEAM_SPREAD = Num 55"

text \<open>\<^verbatim>\<open>'abcdefgh'[file] + (rank + 1).toString()\<close>; a file outside the string reads
  \<^verbatim>\<open>undefined\<close>, which string concatenation prints as such.\<close>

definition fileRanktoSquare :: "nat \<Rightarrow> nat \<Rightarrow> string" where
  "fileRanktoSquare rank file =
     (case at_index ''abcdefgh'' file of None \<Rightarrow> ''undefined'' | Some c \<Rightarrow> [c])
     @ toString (rank + 1)"

definition squareToFileRank :: "string \<Rightarrow> jsnum \<times> jsnum" where
  "squareToFileRank square =
     (charCodeAt0 square - Num 97, parseInt (at_index square 1) - Num 1)"

definition moveToDirectionDeg :: "string \<Rightarrow> jsnum" where
  "moveToDirectionDeg move =
     (let (file1, rank1) = squareToFileRank (slice move 0 2);
          (file2, rank2) = squareToFileRank (slice move 2 4)
      in Math_round (Math_atan2 (rank2 - rank1) (file2 - file1) * Num 180 / Math_PI))"

section \<open>board.ts: the board\<close>

record PieceLocation =
  pieceSymbol :: char
  rank :: nat
  file' :: nat

record ArrowLocation =
  move :: "string option"
  classes :: string
  width :: jsnum
  angle :: jsnum
  headLength :: jsnum
  headWidth :: jsnum
  dashLength :: jsnum
  dashSpace :: jsnum
  renderAfterPieces :: bool
  offset :: jsnum
  totalOffsets :: jsnum
  offsetDirection :: jsnum
  onlyOuterStroke :: "bool option"

text \<open>The field \<open>move\<close> is declared a string; \<^verbatim>\<open>renderThinkingarrows\<close> fills it from an array
  read, so at run time it can be \<^verbatim>\<open>undefined\<close> (\<open>None\<close>).\<close>

record Outline =
  square :: string
  className :: string
  inset :: jsnum

text \<open>The class \<^verbatim>\<open>Arrow\<close> (\<^verbatim>\<open>./arrow\<close>) is not among the sources. A rendered arrow is kept as
  the object on which \<^verbatim>\<open>render(parent)\<close> is called, with the fields \<^verbatim>\<open>renderArrows\<close> sets.\<close>

record Arrow =
  x1 :: jsnum
  y1 :: jsnum
  x2 :: jsnum
  y2 :: jsnum
  ar_classes :: string
  ar_width :: jsnum
  ar_angle :: jsnum
  ar_headLength :: jsnum
  ar_headWidth :: jsnum
  ar_dashLength :: jsnum
  ar_dashSpace :: jsnum
  ar_onlyOuterStroke :: bool

text \<open>What the set \<open>outlinedSquares\<close> holds at run time. \<^verbatim>\<open>addOutline\<close> is declared for
  \<^verbatim>\<open>Outline\<close> objects, but its only callers (\<^verbatim>\<open>renderMovePlayedOutline\<close> in
  \<^verbatim>\<open>board_area.ts\<close>) pass the two halves of a move, which are bare strings.\<close>

datatype OutlineValue =
    is_OutlineObject: OutlineObject (the_outline: Outline)
  | BareString string

text \<open>The elements appended to the \<^verbatim>\<open>svg\<close> node: \<^verbatim>\<open>rect\<close> (x, y, width, height, class),
  \<^verbatim>\<open>use\<close> (x, y, href, optional class) and a rendered arrow. Numeric attributes are kept as
  numbers, not as their \<^verbatim>\<open>toString()\<close>.\<close>

datatype SVGElement =
    Rect (rect_x: jsnum) (rect_y: jsnum) (rect_width: jsnum) (rect_height: jsnum) (rect_class: string)
  | Use (use_x: jsnum) (use_y: jsnum) (use_href: string) (use_class: "string option")
  | ArrowShape (the_arrow: Arrow)

record Board =
  boardClass :: string
  pieces :: "PieceLocation list"
  highlightedSquares :: "string set"
  outlinedSquares :: "OutlineValue list"
  flipped :: bool
  arrows :: "ArrowLocation list"
  whiteToMove :: bool
  border :: jsnum

text \<open>\<open>pieces\<close> and \<open>outlinedSquares\<close> are JavaScript \<^verbatim>\<open>Set\<close>s: iteration is in insertion
  order, an object is a member by identity (every added object literal is a new element)
  and a string is a member by value (adding it a second time changes nothing). The sets
  are lists.\<close>

definition clearHighlights :: "Board \<Rightarrow> Board" where
  "clearHighlights b = b\<lparr>highlightedSquares := {}\<rparr>"

definition clearArrows :: "Board \<Rightarrow> Board" where
  "clearArrows b = b\<lparr>arrows := []\<rparr>"

definition clearOutlines :: "Board \<Rightarrow> Board" where
  "clearOutlines b = b\<lparr>outlinedSquares := []\<rparr>"

definition addHighlight :: "string \<Rightarrow> Board \<Rightarrow> Board" where
  "addHighlight sq b = b\<lparr>highlightedSquares := insert sq (highlightedSquares b)\<rparr>"

definition addOutline :: "OutlineValue \<Rightarrow> Board \<Rightarrow> Board" where
  "addOutline outline b =
     (case outline of
        OutlineObject _ \<Rightarrow> b\<lparr>outlinedSquares := outlinedSquares b @ [outline]\<rparr>
      | BareString _ \<Rightarrow>
          if outline \<in> set (outlinedSquares b) then b
          else b\<lparr>outlinedSquares := outlinedSquares b @ [outline]\<rparr>)"

definition addArrow :: "ArrowLocation \<Rightarrow> Board \<Rightarrow> Board" where
  "addArrow arrow b = b\<lparr>arrows := arrows b @ [arrow]\<rparr>"

subsection \<open>fromFen\<close>

text \<open>The inner loop of \<^verbatim>\<open>fromFen\<close> over the characters of one row, with its file cursor.\<close>

fun parseRow :: "nat \<Rightarrow> string \<Rightarrow> nat \<Rightarrow> PieceLocation list" where
  "parseRow rowIndex [] f = []"
| "parseRow rowIndex (c # cs) f =
     (case digitValue c of
        None \<Rightarrow> \<lparr>pieceSymbol = c, rank = rowIndex, file' = f\<rparr> # parseRow rowIndex cs (f + 1)
      | Some num \<Rightarrow> parseRow rowIndex cs (f + num))"

text \<open>\<^verbatim>\<open>rows.forEach((row, rowIndex) => ...)\<close>, from row index \<open>i\<close> on.\<close>

fun parseRows :: "string list \<Rightarrow> nat \<Rightarrow> PieceLocation list" where
  "parseRows [] i = []"
| "parseRows (row # rows) i = parseRow i row 0 @ parseRows rows (i + 1)"

definition fromFen :: "string \<Rightarrow> Board \<Rightarrow> Board" where
  "fromFen fen b =
     (let b1 = clearOutlines (clearArrows (clearHighlights (b\<lparr>pieces := []\<rparr>)));
          b2 = b1\<lparr>whiteToMove := (at_index (js_split CHR '' '' fen) 1 = Some ''w'')\<rparr>;
          rows = js_split CHR ''/'' (hd (js_split CHR '' '' fen))
      in b2\<lparr>pieces := parseRows rows 0\<rparr>)"

text \<open>The board a constructor call leaves behind (the DOM element is not modelled).\<close>

definition newBoard :: Board where
  "newBoard =
     fromFen ''rnbqkbnr/pppppppp/8/8/8/8/PPPPPPPP/RNBQKBNR w''
       \<lparr>boardClass = ''main-board'', pieces = [], highlightedSquares = {}, outlinedSquares = [],
        flipped = False, arrows = [], whiteToMove = True, border = Num 0\<rparr>"

subsection \<open>Rendering\<close>

definition boardSquare :: "Board \<Rightarrow> nat \<Rightarrow> nat \<Rightarrow> SVGElement" where
  "boardSquare b rnk fl =
     (let x = (if flipped b then Num 7 - Num (real fl) else Num (real fl)) * SQUARE_SIZE + border b;
          y = (if flipped b then Num (real rnk) else Num 7 - Num (real rnk)) * SQUARE_SIZE + border b;
          is_light = ((rnk + fl) mod 2 = 1);
          className = ''square'' @ (if is_light then '' light'' else '' dark'')
            @ (if fileRanktoSquare rnk fl \<in> highlightedSquares b then '' lastmove'' else [])
      in Rect x y SQUARE_SIZE SQUARE_SIZE className)"

definition renderBoard :: "Board \<Rightarrow> SVGElement list" where
  "renderBoard b = concat (map (\<lambda>rnk. map (\<lambda>fl. boardSquare b rnk fl) [0..<8]) [0..<8])"

definition outlineRect :: "Board \<Rightarrow> Outline \<Rightarrow> SVGElement" where
  "outlineRect b outline =
     (let (fl, rnk) = squareToFileRank (square outline);
          x = (if flipped b then Num 7 - fl else fl) * SQUARE_SIZE + border b;
          y = (if flipped b then rnk else Num 7 - rnk) * SQUARE_SIZE + border b;
          hWidth = inset outline / Num 2
      in Rect (x + hWidth) (y + hWidth) (SQUARE_SIZE - Num 2 * hWidth) (SQUARE_SIZE - Num 2 * hWidth)
           (className outline))"

text \<open>\<^verbatim>\<open>renderOutlines\<close>: a bare string has no property \<^verbatim>\<open>square\<close>, so
  \<^verbatim>\<open>squareToFileRank(outline.square)\<close> reads \<^verbatim>\<open>charCodeAt\<close> of \<^verbatim>\<open>undefined\<close> and raises a
  TypeError.\<close>

fun renderOutlinesLoop :: "Board \<Rightarrow> OutlineValue list \<Rightarrow> error + SVGElement list" where
  "renderOutlinesLoop b [] = Inr []"
| "renderOutlinesLoop b (outline # rest) =
     (case outline of
        BareString _ \<Rightarrow> Inl TypeError
      | OutlineObject ol \<Rightarrow>
          (case renderOutlinesLoop b rest of
             Inl e \<Rightarrow> Inl e
           | Inr els \<Rightarrow> Inr (outlineRect b ol # els)))"

definition renderOutlines :: "Board \<Rightarrow> error + SVGElement list" where
  "renderOutlines b = renderOutlinesLoop b (outlinedSquares b)"

definition isWhitePiece :: "PieceLocation \<Rightarrow> bool" where
  "isWhitePiece piece = ([of_char (pieceSymbol piece)] = toUpperCase (pieceSymbol piece))"

definition pieceEl :: "Board \<Rightarrow> PieceLocation \<Rightarrow> SVGElement" where
  "pieceEl b piece =
     (let x = (if flipped b then Num 7 - Num (real (file' piece)) else Num (real (file' piece)))
                * SQUARE_SIZE + border b;
          y = (if flipped b then Num 7 - Num (real (rank piece)) else Num (real (rank piece)))
                * SQUARE_SIZE + border b
      in Use x y (''/static/pieces.svg#piece-'' @ [pieceSymbol piece])
           (if whiteToMove b = isWhitePiece piece then Some '' side-to-move'' else None))"

definition renderPieces :: "Board \<Rightarrow> bool \<Rightarrow> SVGElement list" where
  "renderPieces b sideToMove =
     (let whiteToShow = (whiteToMove b = sideToMove)
      in concat (map (\<lambda>piece. if isWhitePiece piece \<noteq> whiteToShow then [] else [pieceEl b piece])
                   (pieces b)))"

text \<open>The body of the loop of \<^verbatim>\<open>renderArrows\<close> for an arrow whose move is the string \<open>mv\<close>.\<close>

definition arrowShape :: "Board \<Rightarrow> ArrowLocation \<Rightarrow> string \<Rightarrow> Arrow" where
  "arrowShape b arrow mv =
     (let (file1, rank1) = squareToFileRank (slice mv 0 2);
          (file2, rank2) = squareToFileRank (slice mv 2 4);
          off = ((offset arrow + Num 1) / (totalOffsets arrow + Num 1) - Num (1 / 2)) * BEAM_SPREAD;
          dx = Math_sin (offsetDirection arrow * Math_PI / Num 180) * off;
          dy = Math_cos (offsetDirection arrow * Math_PI / Num 180) * off
      in \<lparr>x1 = (if flipped b then Num 7 - file1 else file1) * SQUARE_SIZE + dx
                + SQUARE_SIZE / Num 2 + border b,
          y1 = (if flipped b then rank1 else Num 7 - rank1) * SQUARE_SIZE + dy
                + SQUARE_SIZE / Num 2 + border b,
          x2 = (if flipped b then Num 7 - file2 else file2) * SQUARE_SIZE + dx
                + SQUARE_SIZE / Num 2 + border b,
          y2 = (if flipped b then rank2 else Num 7 - rank2) * SQUARE_SIZE + dy
                + SQUARE_SIZE / Num 2 + border b,
          ar_classes = classes arrow,
          ar_width = width arrow,
          ar_angle = angle arrow,
          ar_headLength = headLength arrow,
          ar_headWidth = headWidth arrow,
          ar_dashLength = dashLength arrow,
          ar_dashSpace = dashSpace arrow,
          ar_onlyOuterStroke = (case onlyOuterStroke arrow of None \<Rightarrow> False | Some v \<Rightarrow> v)\<rparr>)"

text \<open>\<^verbatim>\<open>renderArrows\<close>: \<^verbatim>\<open>arrow.move.slice\<close> raises a TypeError on an undefined move.\<close>

fun renderArrowsLoop :: "Board \<Rightarrow> bool \<Rightarrow> ArrowLocation list \<Rightarrow> error + SVGElement list" where
  "renderArrowsLoop b after [] = Inr []"
| "renderArrowsLoop b after (arrow # rest) =
     (if renderAfterPieces arrow \<noteq> after then renderArrowsLoop b after rest
      else (case move arrow of
              None \<Rightarrow> Inl TypeError
            | Some mv \<Rightarrow>
                (case renderArrowsLoop b after rest of
                   Inl e \<Rightarrow> Inl e
                 | Inr els \<Rightarrow> Inr (ArrowShape (arrowShape b arrow mv) # els))))"

definition renderArrows :: "Board \<Rightarrow> bool \<Rightarrow> error + SVGElement list" where
  "renderArrows b after = renderArrowsLoop b after (arrows b)"

record SVG =
  svg_class :: string
  viewBox_side :: jsnum
  children :: "SVGElement list"

definition render :: "Board \<Rightarrow> error + SVG" where
  "render b =
     (let side = SQUARE_SIZE * Num 8 + Num 2 * border b;
          board = renderBoard b
      in case renderOutlines b of
           Inl e \<Rightarrow> Inl e
         | Inr outlines \<Rightarrow>
             (let pieces1 = renderPieces b False
              in case renderArrows b False of
                   Inl e \<Rightarrow> Inl e
                 | Inr arrows1 \<Rightarrow>
                     (let pieces2 = renderPieces b True
                      in case renderArrows b True of
                           Inl e \<Rightarrow> Inl e
                         | Inr arrows2 \<Rightarrow>
                             Inr \<lparr>svg_class = ''board '' @ boardClass b, viewBox_side = side,
                                  children = board @ outlines @ pieces1 @ arrows1 @ pieces2
                                    @ arrows2\<rparr>)))"

section \<open>board\_area.ts: arrows of the engine's variations\<close>

text \<open>Modelled from the spec: \<^verbatim>\<open>WsEvaluationData\<close> (\<^verbatim>\<open>./ws_feed\<close>) and \<^verbatim>\<open>ArrowInfo\<close>
  (\<^verbatim>\<open>./arrow_selector\<close>), whose declarations are not among the sources. An update is an
  ordered list of variations, each with its move sequence and its node count; a candidate
  arrow names its variation and its ply. The records hold the fields that
  \<^verbatim>\<open>board_area.ts\<close> reads, under the names it reads them by. \<^verbatim>\<open>selectArrowsToRender\<close> is
  not among the sources either: its result, the list of candidate arrows, is a parameter.\<close>

record Variation =
  pvUci :: string
  nodes :: jsnum

record WsEvaluationData =
  variations :: "Variation list"

record ArrowInfo =
  variationIdx :: nat
  ply :: nat

record Counts =
  current :: nat
  total' :: nat

text \<open>The key of \<^verbatim>\<open>dirToCount\<close> is the string \<^verbatim>\<open>`${from}:${moveToDirectionDeg(move)}`\<close>. The
  printed number has no colon, so two keys are equal exactly when the origin and the
  direction are: the key is kept as that pair.\<close>

type_synonym laneKey = "string \<times> jsnum"

text \<open>\<^verbatim>\<open>update.variations[arrow.variationIdx].pvUci.split(' ')[arrow.ply]\<close>: a missing
  variation raises, a missing move is \<^verbatim>\<open>undefined\<close>.\<close>

definition arrowMove :: "WsEvaluationData \<Rightarrow> ArrowInfo \<Rightarrow> error + string option" where
  "arrowMove update arrow =
     (case at_index (variations update) (variationIdx arrow) of
        None \<Rightarrow> Inl TypeError
      | Some variation \<Rightarrow> Inr (at_index (js_split CHR '' '' (pvUci variation)) (ply arrow)))"

definition arrowKey :: "WsEvaluationData \<Rightarrow> ArrowInfo \<Rightarrow> error + laneKey" where
  "arrowKey update arrow =
     (case arrowMove update arrow of
        Inl e \<Rightarrow> Inl e
      | Inr None \<Rightarrow> Inl TypeError
      | Inr (Some mv) \<Rightarrow> Inr (slice mv 0 2, moveToDirectionDeg mv))"

text \<open>First loop of \<^verbatim>\<open>buildArrowOffsets\<close>: count the arrows of every lane.\<close>

fun countLanes ::
  "WsEvaluationData \<Rightarrow> ArrowInfo list \<Rightarrow> (laneKey \<rightharpoonup> Counts) \<Rightarrow> error + (laneKey \<rightharpoonup> Counts)" where
  "countLanes update [] dirToCount = Inr dirToCount"
| "countLanes update (arrow # rest) dirToCount =
     (if 2 \<le> ply arrow then countLanes update rest dirToCount
      else (case arrowKey update arrow of
              Inl e \<Rightarrow> Inl e
            | Inr key \<Rightarrow>
                (let value = (case dirToCount key of
                                None \<Rightarrow> \<lparr>current = 0, total' = 0\<rparr>
                              | Some v \<Rightarrow> v)
                 in countLanes update rest
                      (dirToCount(key \<mapsto> value\<lparr>total' := total' value + 1\<rparr>)))))"

text \<open>Second loop: hand out the running counter of the lane. \<open>usVariations\<close> and
  \<open>themVariations\<close> are sparse arrays indexed by the variation.\<close>

fun assignLanes ::
  "WsEvaluationData \<Rightarrow> ArrowInfo list \<Rightarrow> (laneKey \<rightharpoonup> Counts) \<Rightarrow> (nat \<rightharpoonup> Counts) \<Rightarrow> (nat \<rightharpoonup> Counts)
     \<Rightarrow> error + (nat \<rightharpoonup> Counts) \<times> (nat \<rightharpoonup> Counts)" where
  "assignLanes update [] dirToCount usVariations themVariations =
     Inr (usVariations, themVariations)"
| "assignLanes update (arrow # rest) dirToCount usVariations themVariations =
     (if 2 \<le> ply arrow then assignLanes update rest dirToCount usVariations themVariations
      else (case arrowKey update arrow of
              Inl e \<Rightarrow> Inl e
            | Inr key \<Rightarrow>
                (case dirToCount key of
                   None \<Rightarrow> Inl TypeError
                 | Some value \<Rightarrow>
                     (let varIdx = variationIdx arrow;
                          us = (if ply arrow = 0 then usVariations(varIdx \<mapsto> value)
                                else usVariations);
                          them = (if ply arrow = 0 then themVariations
                                  else themVariations(varIdx \<mapsto> value))
                      in assignLanes update rest
                           (dirToCount(key \<mapsto> value\<lparr>current := current value + 1\<rparr>)) us them))))"

definition buildArrowOffsets ::
  "WsEvaluationData \<Rightarrow> ArrowInfo list \<Rightarrow> error + (nat \<rightharpoonup> Counts) \<times> (nat \<rightharpoonup> Counts)" where
  "buildArrowOffsets update arrowInfos =
     (case countLanes update arrowInfos Map.empty of
        Inl e \<Rightarrow> Inl e
      | Inr dirToCount \<Rightarrow> assignLanes update arrowInfos dirToCount Map.empty Map.empty)"

text \<open>\<^verbatim>\<open>Math.pow(variation.nodes / update.variations[0].nodes, 1 / 1.7) * 15\<close>.\<close>

definition arrowWidth :: "Variation \<Rightarrow> Variation \<Rightarrow> jsnum" where
  "arrowWidth variation best = Math_pow (nodes variation / nodes best) (1 / 1.7) * Num 15"

text \<open>The body of the loop of \<^verbatim>\<open>renderThinkingarrows\<close>: the arrow handed to \<^verbatim>\<open>addArrow\<close>.\<close>

definition thinkingArrow ::
  "WsEvaluationData \<Rightarrow> (nat \<rightharpoonup> Counts) \<Rightarrow> (nat \<rightharpoonup> Counts) \<Rightarrow> ArrowInfo \<Rightarrow> error + ArrowLocation" where
  "thinkingArrow update usVars themVars arrow =
     (case at_index (variations update) (variationIdx arrow) of
        None \<Rightarrow> Inl TypeError
      | Some variation \<Rightarrow>
         (let p = ply arrow;
              mv = at_index (js_split CHR '' '' (pvUci variation)) p;
              w = arrowWidth variation (hd (variations update));
              cls = ''arrow arrow-variation'' @ toString (variationIdx arrow) @ '' arrow-ply''
                      @ toString (if p \<le> 2 then p else 2)
          in if p = 0 then
               (case (usVars (variationIdx arrow), mv) of
                  (Some c, Some m) \<Rightarrow>
                    Inr \<lparr>move = mv, classes = cls, width = w + Num 1, angle = Num 0,
                         headLength = Num 20, headWidth = w + Num 14, dashLength = Num 1000,
                         dashSpace = Num 0, renderAfterPieces = False,
                         offset = Num (real (current c)), totalOffsets = Num (real (total' c)),
                         offsetDirection = moveToDirectionDeg m, onlyOuterStroke = None\<rparr>
                | _ \<Rightarrow> Inl TypeError)
             else if p = 1 then
               (case (themVars (variationIdx arrow), mv) of
                  (Some c, Some m) \<Rightarrow>
                    Inr \<lparr>move = mv, classes = cls, width = w / Num 2.2 + Num 1,
                         angle = Math_PI / Num 6, headLength = Num 10,
                         headWidth = w / Num 2 + Num 8, dashLength = Num 10, dashSpace = Num 10,
                         renderAfterPieces = True,
                         offset = Num (real (current c)), totalOffsets = Num (real (total' c)),
                         offsetDirection = moveToDirectionDeg m, onlyOuterStroke = None\<rparr>
                | _ \<Rightarrow> Inl TypeError)
             else
               (case usVars (variationIdx arrow) of
                  Some c \<Rightarrow>
                    Inr \<lparr>move = mv, classes = cls, width = Num 3, angle = - (Math_PI / Num 4),
                         headLength = Num 5, headWidth = Num 10, dashLength = Num 3,
                         dashSpace = Num 3, renderAfterPieces = True,
                         offset = Num (real (current c)), totalOffsets = Num (real (total' c)),
                         offsetDirection =
                           moveToDirectionDeg (hd (js_split CHR '' '' (pvUci variation))),
                         onlyOuterStroke = None\<rparr>
                | None \<Rightarrow> Inl TypeError)))"

fun addThinkingArrows ::
  "WsEvaluationData \<Rightarrow> (nat \<rightharpoonup> Counts) \<Rightarrow> (nat \<rightharpoonup> Counts) \<Rightarrow> ArrowInfo list \<Rightarrow> Board
     \<Rightarrow> error + Board" where
  "addThinkingArrows update usVars themVars [] b = Inr b"
| "addThinkingArrows update usVars themVars (arrow # rest) b =
     (case thinkingArrow update usVars themVars arrow of
        Inl e \<Rightarrow> Inl e
      | Inr a \<Rightarrow> addThinkingArrows update usVars themVars rest (addArrow a b))"

text \<open>\<^verbatim>\<open>renderThinkingarrows(update)\<close> on the board \<open>b\<close>, with \<open>selected\<close> the result of
  \<^verbatim>\<open>selectArrowsToRender(update)\<close>.\<close>

definition renderThinkingarrows ::
  "WsEvaluationData \<Rightarrow> ArrowInfo list \<Rightarrow> Board \<Rightarrow> error + Board" where
  "renderThinkingarrows update selected b =
     (case buildArrowOffsets update selected of
        Inl e \<Rightarrow> Inl e
      | Inr (usVars, themVars) \<Rightarrow> addThinkingArrows update usVars themVars selected b)"

text \<open>\<^verbatim>\<open>renderMovePlayedOutline(move)\<close>: the two squares of the move are handed to
  \<^verbatim>\<open>addOutline\<close> as they are sliced, that is as strings.\<close>

definition renderMovePlayedOutline :: "string \<Rightarrow> Board \<Rightarrow> Board" where
  "renderMovePlayedOutline mv b =
     addOutline (BareString (slice mv 2 4)) (addOutline (BareString (slice mv 0 2)) (clearOutlines b))"

text \<open>An arrow belongs to the lane \<open>key\<close> when the loops of \<^verbatim>\<open>buildArrowOffsets\<close> do not skip
  it and compute that key for it; \<open>offsetsOf\<close> is the entry that \<^verbatim>\<open>renderThinkingarrows\<close>
  reads for an arrow of ply 0 or 1.\<close>

definition inLane :: "WsEvaluationData \<Rightarrow> laneKey \<Rightarrow> ArrowInfo \<Rightarrow> bool" where
  "inLane update key arrow = (ply arrow < 2 \<and> arrowKey update arrow = Inr key)"

definition offsetsOf :: "(nat \<rightharpoonup> Counts) \<Rightarrow> (nat \<rightharpoonup> Counts) \<Rightarrow> ArrowInfo \<Rightarrow> Counts option" where
  "offsetsOf usVars themVars arrow =
     (if ply arrow = 0 then usVars (variationIdx arrow) else themVars (variationIdx arrow))"


section \<open>Well-formed placements, in the words of the specification\<close>

text \<open>The specification calls a placement malformed when the letters and digit runs of some
  row do not sum to exactly 8 files, or when there are not 8 rows. The source has no such
  check; these two definitions state the specification's condition.\<close>

fun spec_rowFiles :: "string \<Rightarrow> nat" where
  "spec_rowFiles [] = 0"
| "spec_rowFiles (c # cs) = (case digitValue c of None \<Rightarrow> 1 | Some n \<Rightarrow> n) + spec_rowFiles cs"

definition spec_malformedPlacement :: "string \<Rightarrow> bool" where
  "spec_malformedPlacement placement =
     (let rows = js_split CHR ''/'' placement
      in length rows \<noteq> 8 \<or> list_ex (\<lambda>row. spec_rowFiles row \<noteq> 8) rows)"

section \<open>Squares and their names\<close>

lemma toString_digit: "n < 10 \<Longrightarrow> toString n = [digitChar n]"
  by (simp add: toString.simps)

lemma nat_lt8_cases: "(n::nat) < 8 \<Longrightarrow> n \<in> {0, 1, 2, 3, 4, 5, 6, 7}"
  by auto

lemma fileRanktoSquare_file:
  assumes "f < 8" "r < 8"
  shows "charCodeAt0 (fileRanktoSquare r f) = Num (97 + real f)"
  using nat_lt8_cases [OF assms(1)]
  by (auto simp: fileRanktoSquare_def at_index_def charCodeAt0_def)

lemma fileRanktoSquare_rank:
  assumes "f < 8" "r < 8"
  shows "parseInt (at_index (fileRanktoSquare r f) 1) = Num (real r + 1)"
  using nat_lt8_cases [OF assms(1)] nat_lt8_cases [OF assms(2)]
  by (auto simp: fileRanktoSquare_def at_index_def toString_digit digitChar_def
      parseInt_def digitValue_def)

lemma squareToFileRank_name:
  assumes "f < 8" "r < 8"
  shows "squareToFileRank (fileRanktoSquare r f) = (Num (real f), Num (real r))"
  using fileRanktoSquare_rank [OF assms] fileRanktoSquare_file [OF assms]
  by (simp add: squareToFileRank_def minus_jsnum_def)

lemma length_fileRanktoSquare:
  assumes "f < 8" "r < 8"
  shows "length (fileRanktoSquare r f) = 2"
  using nat_lt8_cases [OF assms(1)] assms(2)
  by (auto simp: fileRanktoSquare_def at_index_def toString_digit)

text \<open>
  \<^bold>\<open>C10.\<close> For every file and every rank in \<open>[0,7]\<close>, naming the square with
  \<^verbatim>\<open>fileRanktoSquare(rank, file)\<close> and decoding the name with \<^verbatim>\<open>squareToFileRank\<close> gives back
  exactly \<^verbatim>\<open>[file, rank]\<close>.
\<close>

theorem squareToFileRank_fileRanktoSquare:
  "f < 8 \<Longrightarrow> r < 8 \<Longrightarrow> squareToFileRank (fileRanktoSquare r f) = (Num (real f), Num (real r))"
  by (rule squareToFileRank_name)

theorem squareToFileRank_fileRanktoSquare_witness:
  "(4::nat) < 8 \<and> (1::nat) < 8 \<and> fileRanktoSquare 1 4 = ''e2''
   \<and> squareToFileRank (fileRanktoSquare 1 4) = (Num 4, Num 1)"
  using squareToFileRank_fileRanktoSquare [of 4 1]
  by (simp add: fileRanktoSquare_def at_index_def toString_digit digitChar_def)

section \<open>Directions\<close>

text \<open>Partial sums of the arctangent series enclose the arctangent on \<open>(0, 1]\<close>.\<close>

lemma arctan_partial_sums:
  assumes "0 < x" "x \<le> 1"
  shows "(\<Sum>i<2 * n. (- 1) ^ i * (1 / real (i * 2 + 1) * x ^ (i * 2 + 1))) \<le> arctan x"
    and "arctan x \<le> (\<Sum>i<2 * n + 1. (- 1) ^ i * (1 / real (i * 2 + 1) * x ^ (i * 2 + 1)))"
proof -
  have ax: "\<bar>x\<bar> \<le> 1" using assms by simp
  have pos: "0 < 1 / real (0 * 2 + 1) * x ^ (0 * 2 + 1)" using assms by simp
  from summable_Leibniz(2) [OF zeroseq_arctan_series [OF ax] monoseq_arctan_series [OF ax]] pos
  have "arctan x \<in> {(\<Sum>i<2 * n. (- 1) ^ i * (1 / real (i * 2 + 1) * x ^ (i * 2 + 1))) ..
                     (\<Sum>i<2 * n + 1. (- 1) ^ i * (1 / real (i * 2 + 1) * x ^ (i * 2 + 1)))}"
    unfolding arctan_series [OF ax] by blast
  then show "(\<Sum>i<2 * n. (- 1) ^ i * (1 / real (i * 2 + 1) * x ^ (i * 2 + 1))) \<le> arctan x"
    and "arctan x \<le> (\<Sum>i<2 * n + 1. (- 1) ^ i * (1 / real (i * 2 + 1) * x ^ (i * 2 + 1)))"
    by simp_all
qed

lemma arctan_half_lower: "(6229 / 13440 :: real) \<le> arctan (1 / 2)"
  using arctan_partial_sums(1) [of "1 / 2" 2]
  by (simp add: eval_nat_numeral power_divide)

lemma arctan_half_upper: "arctan (1 / 2) \<le> (1 / 2 :: real)"
  using arctan_partial_sums(2) [of "1 / 2" 0]
  by simp

lemma arctan_third_lower: "(26 / 81 :: real) \<le> arctan (1 / 3)"
  using arctan_partial_sums(1) [of "1 / 3" 1]
  by (simp add: eval_nat_numeral power_divide)

lemma arctan_third_upper: "arctan (1 / 3) \<le> (391 / 1215 :: real)"
  using arctan_partial_sums(2) [of "1 / 3" 1]
  by (simp add: eval_nat_numeral power_divide)

lemma arctan_half_third: "arctan (1 / 2) + arctan (1 / 3) = pi / 4"
proof -
  have "arctan (1 / 2) + arctan (1 / 3)
        = arctan (((1 / 2) + (1 / 3)) / (1 - (1 / 2) * (1 / 3)) :: real)"
    by (rule arctan_add) simp_all
  also have "\<dots> = arctan 1" by simp
  finally show ?thesis by (simp add: arctan_one)
qed

lemma atan2_knight: "atan2 2 (- 1) = pi / 2 + arctan (1 / 2)"
  using arctan_inverse [of "2::real"]
  by (simp add: atan2_def arctan_minus)

text \<open>The knight's direction lies strictly between 116.5 and 117.5 degrees.\<close>

lemma round_atan2_knight: "\<lfloor>atan2 2 (- 1) * 180 / pi + 1 / 2\<rfloor> = 117"
proof -
  define a where "a = arctan (1 / 2 :: real)"
  define b where "b = arctan (1 / 3 :: real)"
  have pi4: "pi = 4 * (a + b)"
    using arctan_half_third by (simp add: a_def b_def)
  have a1: "6229 / 13440 \<le> a" and a2: "a \<le> 1 / 2"
    and b1: "26 / 81 \<le> b" and b2: "b \<le> 391 / 1215"
    using arctan_half_lower arctan_half_upper arctan_third_lower arctan_third_upper
    by (simp_all add: a_def b_def)
  have pos: "0 < pi" by simp
  have v: "atan2 2 (- 1) = pi / 2 + a"
    by (simp add: atan2_knight a_def)
  have lo: "117 * pi \<le> (pi / 2 + a) * 180 + pi / 2"
    using a1 b2 unfolding pi4 by argo
  have hi: "(pi / 2 + a) * 180 + pi / 2 < 118 * pi"
    using a2 b1 unfolding pi4 by argo
  have "117 \<le> atan2 2 (- 1) * 180 / pi + 1 / 2"
    using lo pos unfolding v by (simp add: field_simps)
  moreover have "atan2 2 (- 1) * 180 / pi + 1 / 2 < 118"
    using hi pos unfolding v by (simp add: field_simps)
  ultimately show ?thesis by linarith
qed

lemmas square_simps =
  slice_def squareToFileRank_def charCodeAt0_def parseInt_def at_index_def digitValue_def
  minus_jsnum_def

lemma direction_e2e4: "moveToDirectionDeg ''e2e4'' = Num 90"
  by (simp add: moveToDirectionDeg_def square_simps Math_PI_def atan2_def)

lemma direction_e2e3: "moveToDirectionDeg ''e2e3'' = Num 90"
  by (simp add: moveToDirectionDeg_def square_simps Math_PI_def atan2_def)

lemma direction_e2d4: "moveToDirectionDeg ''e2d4'' = Num 117"
  using round_atan2_knight
  by (simp add: moveToDirectionDeg_def square_simps Math_PI_def)

lemma moveToDirectionDeg_four:
  "moveToDirectionDeg [c1, d1, c2, d2] =
     (case (digitValue d1, digitValue d2) of
        (Some n1, Some n2) \<Rightarrow>
          Num (of_int \<lfloor>atan2 ((real n2 - 1) - (real n1 - 1))
                             ((real (of_char c2) - 97) - (real (of_char c1) - 97)) * 180 / pi
                       + 1 / 2\<rfloor>)
      | _ \<Rightarrow> NaN)"
  by (simp add: moveToDirectionDeg_def slice_def squareToFileRank_def charCodeAt0_def
      parseInt_def at_index_def minus_jsnum_def Math_PI_def split: option.splits)

text \<open>
  \<^bold>\<open>C6.\<close> For every 4-character move string the direction is
  \<open>round(atan2(destRank - originRank, destFile - originFile) * 180 / \<pi>)\<close>, where the file of a
  square is the code of its letter minus that of \<^verbatim>\<open>a\<close> and its rank is its digit minus one
  (NaN when a rank character is no digit). The direction is a function of the move string
  alone: the board, and with it the orientation flag, is no argument of
  \<open>moveToDirectionDeg\<close>. The move \<^verbatim>\<open>e2e4\<close> gives 90 degrees and \<^verbatim>\<open>e2d4\<close> gives 117.
\<close>

theorem moveToDirectionDeg_spec:
  "(length mv = 4 \<longrightarrow>
      moveToDirectionDeg mv =
        (case (digitValue (mv ! 1), digitValue (mv ! 3)) of
           (Some n1, Some n2) \<Rightarrow>
             Num (of_int \<lfloor>atan2 ((real n2 - 1) - (real n1 - 1))
                                ((real (of_char (mv ! 2)) - 97) - (real (of_char (mv ! 0)) - 97))
                              * 180 / pi + 1 / 2\<rfloor>)
         | _ \<Rightarrow> NaN))
   \<and> moveToDirectionDeg ''e2e4'' = Num 90
   \<and> moveToDirectionDeg ''e2d4'' = Num 117"
proof (intro conjI impI)
  assume "length mv = 4"
  then obtain c1 d1 c2 d2 where mv: "mv = [c1, d1, c2, d2]"
    by (auto simp: length_Suc_conv eval_nat_numeral)
  show "moveToDirectionDeg mv =
        (case (digitValue (mv ! 1), digitValue (mv ! 3)) of
           (Some n1, Some n2) \<Rightarrow>
             Num (of_int \<lfloor>atan2 ((real n2 - 1) - (real n1 - 1))
                                ((real (of_char (mv ! 2)) - 97) - (real (of_char (mv ! 0)) - 97))
                              * 180 / pi + 1 / 2\<rfloor>)
         | _ \<Rightarrow> NaN)"
    unfolding mv moveToDirectionDeg_four by (simp add: eval_nat_numeral split: option.splits)
qed (rule direction_e2e4, rule direction_e2d4)

theorem moveToDirectionDeg_spec_witness:
  "length ''a1h8'' = 4 \<and> moveToDirectionDeg ''a1h8'' = Num 45"
proof -
  have e: "atan2 7 7 = pi / 4"
    by (simp add: atan2_def arctan_one)
  have "\<lfloor>atan2 7 7 * 180 / pi + 1 / 2\<rfloor> = 45"
    unfolding e by simp
  then show ?thesis
    using moveToDirectionDeg_spec [of "''a1h8''"]
    by (simp add: digitValue_def)
qed

section \<open>Parsing a position\<close>

lemma js_split_nonempty: "js_split sep s \<noteq> []"
  by (induction s) (auto split: list.splits)

lemma js_split_no_sep: "sep \<notin> set s \<Longrightarrow> js_split sep s = [s]"
  by (induction s) auto

lemma js_split_append: "sep \<notin> set p \<Longrightarrow> js_split sep (p @ sep # rest) = p # js_split sep rest"
  by (induction p) auto

lemma isWhitePiece_iff:
  "isWhitePiece p \<longleftrightarrow>
     (let n = (of_char (pieceSymbol p) :: nat)
      in \<not> (97 \<le> n \<and> n \<le> 122) \<and> n \<noteq> 181 \<and> n \<noteq> 223 \<and> \<not> (224 \<le> n \<and> n \<le> 246)
         \<and> \<not> (248 \<le> n \<and> n \<le> 254) \<and> n \<noteq> 255)"
  by (auto simp: isWhitePiece_def toUpperCase_def Let_def)


lemma fromFen_pieces:
  "pieces (fromFen fen b) = parseRows (js_split CHR ''/'' (hd (js_split CHR '' '' fen))) 0"
  by (simp add: fromFen_def Let_def clearOutlines_def clearArrows_def clearHighlights_def)

lemma fromFen_whiteToMove:
  "whiteToMove (fromFen fen b) = (at_index (js_split CHR '' '' fen) 1 = Some ''w'')"
  by (simp add: fromFen_def Let_def clearOutlines_def clearArrows_def clearHighlights_def)

lemma start_rows:
  "js_split CHR ''/'' ''rnbqkbnr/pppppppp/8/8/8/8/PPPPPPPP/RNBQKBNR'' =
    [''rnbqkbnr'', ''pppppppp'', ''8'', ''8'', ''8'', ''8'', ''PPPPPPPP'', ''RNBQKBNR'']"
  by simp

lemma start_pieces_len: "length (parseRows [''rnbqkbnr'', ''pppppppp'', ''8'', ''8'', ''8'', ''8'', ''PPPPPPPP'', ''RNBQKBNR''] 0) = 32"
  by (simp add: digitValue_def)

lemma start_pieces_w: "length (filter isWhitePiece (parseRows [''rnbqkbnr'', ''pppppppp'', ''8'', ''8'', ''8'', ''8'', ''PPPPPPPP'', ''RNBQKBNR''] 0)) = 16"
  by (simp add: digitValue_def isWhitePiece_iff Let_def)

lemma start_pieces_b: "length (filter (\<lambda>p. \<not> isWhitePiece p) (parseRows [''rnbqkbnr'', ''pppppppp'', ''8'', ''8'', ''8'', ''8'', ''PPPPPPPP'', ''RNBQKBNR''] 0)) = 16"
  by (simp add: digitValue_def isWhitePiece_iff Let_def)

lemma start_position_rows:
  "pieces (fromFen (''rnbqkbnr/pppppppp/8/8/8/8/PPPPPPPP/RNBQKBNR'' @ CHR '' '' # rest) b)
     = parseRows [''rnbqkbnr'', ''pppppppp'', ''8'', ''8'', ''8'', ''8'', ''PPPPPPPP'', ''RNBQKBNR''] 0"
proof -
  have sp: "js_split CHR '' '' (''rnbqkbnr/pppppppp/8/8/8/8/PPPPPPPP/RNBQKBNR'' @ CHR '' '' # rest)
        = ''rnbqkbnr/pppppppp/8/8/8/8/PPPPPPPP/RNBQKBNR'' # js_split CHR '' '' rest"
    by (rule js_split_append) simp
  show ?thesis
    unfolding fromFen_pieces sp list.sel start_rows ..
qed

lemma whiteToMove_field:
  assumes "CHR '' '' \<notin> set p" "CHR '' '' \<notin> set t"
  shows "whiteToMove (fromFen (p @ CHR '' '' # t) b) = (t = ''w'')"
    and "whiteToMove (fromFen (p @ CHR '' '' # t @ CHR '' '' # extra) b) = (t = ''w'')"
  using assms
  by (auto simp add: fromFen_whiteToMove js_split_append js_split_no_sep at_index_def)

lemma newBoard_pieces: "length (pieces newBoard) = 32"
  using start_position_rows [of "''w''"] start_pieces_len by (simp add: newBoard_def)

text \<open>
  \<^bold>\<open>C9.\<close> Parsing the starting position (whatever follows the placement field) yields exactly
  32 pieces, 16 of the upper-case side and 16 of the lower-case side; and for every
  placement and every active-colour token, alone or followed by further fields, the
  white-to-move flag is true exactly when the token is \<^verbatim>\<open>w\<close>.
\<close>

theorem fromFen_start:
  "length (pieces (fromFen (''rnbqkbnr/pppppppp/8/8/8/8/PPPPPPPP/RNBQKBNR'' @ CHR '' '' # rest) b)) = 32
   \<and> length (filter isWhitePiece
        (pieces (fromFen (''rnbqkbnr/pppppppp/8/8/8/8/PPPPPPPP/RNBQKBNR'' @ CHR '' '' # rest) b))) = 16
   \<and> length (filter (\<lambda>p. \<not> isWhitePiece p)
        (pieces (fromFen (''rnbqkbnr/pppppppp/8/8/8/8/PPPPPPPP/RNBQKBNR'' @ CHR '' '' # rest) b))) = 16
   \<and> (CHR '' '' \<notin> set p \<and> CHR '' '' \<notin> set t \<longrightarrow>
        whiteToMove (fromFen (p @ CHR '' '' # t) b) = (t = ''w'')
        \<and> whiteToMove (fromFen (p @ CHR '' '' # t @ CHR '' '' # extra) b) = (t = ''w''))"
  unfolding start_position_rows
  using whiteToMove_field(1) [where p = p and t = t and b = b]
    whiteToMove_field(2) [where p = p and t = t and b = b and extra = extra]
    start_pieces_len start_pieces_w start_pieces_b
  by blast

theorem fromFen_start_witness:
  "CHR '' '' \<notin> set ''8/8/8/8/8/8/8/8'' \<and> CHR '' '' \<notin> set ''b''
   \<and> \<not> whiteToMove (fromFen ''8/8/8/8/8/8/8/8 b'' newBoard)
   \<and> \<not> whiteToMove (fromFen ''8/8/8/8/8/8/8/8 b - - 0 1'' newBoard)"
  using fromFen_start [where p = "''8/8/8/8/8/8/8/8''" and t = "''b''" and b = newBoard
      and extra = "''- - 0 1''"]
  by simp

lemma length_parseRow:
  "length (parseRow i row f) = length (filter (\<lambda>c. digitValue c = None) row)"
  by (induction row arbitrary: f) (auto split: option.splits)

lemma length_parseRows:
  "length (parseRows rows i) = length (filter (\<lambda>c. digitValue c = None) (concat rows))"
  by (induction rows arbitrary: i) (auto simp: length_parseRow)

text \<open>The pieces of a row, by the position of their letter: the file is the cursor, that is
  the start value plus the files taken by the characters before the letter.\<close>

lemma upt_Suc_shift: "[0..<Suc n] = 0 # map Suc [0..<n]"
  by (simp add: upt_conv_Cons map_Suc_upt del: upt_Suc)

lemma parseRow_index:
  "parseRow i row f =
     map (\<lambda>j. \<lparr>pieceSymbol = row ! j, rank = i, file' = f + spec_rowFiles (take j row)\<rparr>)
       (filter (\<lambda>j. digitValue (row ! j) = None) [0..<length row])"
proof (induction row arbitrary: f)
  case Nil
  then show ?case by simp
next
  case (Cons c cs)
  show ?case
  proof (cases "digitValue c")
    case None
    then show ?thesis
      using Cons.IH [of "f + 1"]
      by (simp add: upt_Suc_shift filter_map comp_def del: upt_Suc)
  next
    case (Some n)
    then show ?thesis
      using Cons.IH [of "f + n"]
      by (simp add: upt_Suc_shift filter_map comp_def add.assoc del: upt_Suc)
  qed
qed

lemma parseRows_index:
  "parseRows rows k = concat (map (\<lambda>i. parseRow (k + i) (rows ! i) 0) [0..<length rows])"
proof (induction rows arbitrary: k)
  case Nil
  then show ?case by simp
next
  case (Cons row rows)
  show ?case
    using Cons.IH [of "k + 1"]
    by (simp add: upt_Suc_shift comp_def del: upt_Suc)
qed

lemma parseRows_explicit:
  "parseRows rows 0 =
     concat (map (\<lambda>i. map (\<lambda>j. \<lparr>pieceSymbol = rows ! i ! j, rank = i,
                                  file' = spec_rowFiles (take j (rows ! i))\<rparr>)
                          (filter (\<lambda>j. digitValue (rows ! i ! j) = None) [0..<length (rows ! i)]))
               [0..<length rows])"
  by (simp add: parseRows_index parseRow_index)

lemma js_split_join: "concat (map (\<lambda>r. r @ [sep]) (js_split sep s)) = s @ [sep]"
proof (induction s)
  case Nil
  then show ?case by simp
next
  case (Cons c cs)
  then show ?case
    using js_split_nonempty [of sep cs]
    by (cases "js_split sep cs") auto
qed

lemma js_split_fields: "list_all (\<lambda>r. sep \<notin> set r) (js_split sep s)"
proof (induction s)
  case Nil
  then show ?case by simp
next
  case (Cons c cs)
  then show ?case
    using js_split_nonempty [of sep cs]
    by (cases "js_split sep cs") auto
qed

lemma char_by_code: "(of_char c :: nat) = n \<Longrightarrow> (of_char d :: nat) = n \<Longrightarrow> c = d"
  by (metis of_char_eq_iff)

lemma digit_code_cases:
  assumes "(48::nat) \<le> of_char c" "of_char c \<le> (57::nat)"
  shows "c \<in> set ''0123456789''"
proof -
  define n where "n = (of_char c :: nat)"
  have "n \<in> {48, 49, 50, 51, 52, 53, 54, 55, 56, 57}"
    using assms unfolding n_def [symmetric] by simp arith
  then consider "n = 48" | "n = 49" | "n = 50" | "n = 51" | "n = 52" | "n = 53" | "n = 54"
    | "n = 55" | "n = 56" | "n = 57"
    by auto
  then show ?thesis
  proof cases
    case 1 then have "c = CHR ''0''" unfolding n_def by (rule char_by_code) simp
    then show ?thesis by simp
  next
    case 2 then have "c = CHR ''1''" unfolding n_def by (rule char_by_code) simp
    then show ?thesis by simp
  next
    case 3 then have "c = CHR ''2''" unfolding n_def by (rule char_by_code) simp
    then show ?thesis by simp
  next
    case 4 then have "c = CHR ''3''" unfolding n_def by (rule char_by_code) simp
    then show ?thesis by simp
  next
    case 5 then have "c = CHR ''4''" unfolding n_def by (rule char_by_code) simp
    then show ?thesis by simp
  next
    case 6 then have "c = CHR ''5''" unfolding n_def by (rule char_by_code) simp
    then show ?thesis by simp
  next
    case 7 then have "c = CHR ''6''" unfolding n_def by (rule char_by_code) simp
    then show ?thesis by simp
  next
    case 8 then have "c = CHR ''7''" unfolding n_def by (rule char_by_code) simp
    then show ?thesis by simp
  next
    case 9 then have "c = CHR ''8''" unfolding n_def by (rule char_by_code) simp
    then show ?thesis by simp
  next
    case 10 then have "c = CHR ''9''" unfolding n_def by (rule char_by_code) simp
    then show ?thesis by simp
  qed
qed

lemma digitValue_digits:
  "digitValue c = (if c \<in> set ''0123456789'' then Some (of_char c - 48) else None)"
proof (cases "c \<in> set ''0123456789''")
  case True
  then show ?thesis by (auto simp: digitValue_def)
next
  case False
  then have "\<not> ((48::nat) \<le> of_char c \<and> of_char c \<le> (57::nat))"
    using digit_code_cases [of c] by blast
  with False show ?thesis by (simp add: digitValue_def)
qed

lemma placement_field:
  assumes "CHR '' '' \<notin> set p"
  shows "hd (js_split CHR '' '' (p @ CHR '' '' # rest)) = p" "hd (js_split CHR '' '' p) = p"
  using assms by (simp_all add: js_split_append js_split_no_sep)

text \<open>
  \<^bold>\<open>C2\<close> as stated fails: \<^verbatim>\<open>fromFen\<close> has no check and no failure path. On a placement whose
  first row holds nine pawns it returns normally, and the 32 pieces of the previous
  position are replaced by the nine pawns, the last one on file index 8.
\<close>

theorem fromFen_malformed_counterexample:
  "spec_malformedPlacement ''ppppppppp/8/8/8/8/8/8/8''
   \<and> length (pieces newBoard) = 32
   \<and> map file' (pieces (fromFen ''ppppppppp/8/8/8/8/8/8/8 w'' newBoard))
       = [0, 1, 2, 3, 4, 5, 6, 7, 8]"
proof -
  have "spec_malformedPlacement ''ppppppppp/8/8/8/8/8/8/8''"
    by (simp add: spec_malformedPlacement_def digitValue_def)
  moreover have "map file' (pieces (fromFen ''ppppppppp/8/8/8/8/8/8/8 w'' newBoard))
       = [0, 1, 2, 3, 4, 5, 6, 7, 8]"
    by (simp add: fromFen_pieces digitValue_def)
  ultimately show ?thesis using newBoard_pieces by simp
qed

text \<open>
  \<^bold>\<open>C2, amended.\<close> For every string, malformed or not, \<^verbatim>\<open>fromFen\<close> raises nothing and
  replaces the position. The placement field is the text before the first space, its rows
  are the pieces of that text between the slashes. The new piece list holds, row after row
  and letter after letter, one piece for every character that is no decimal digit, with the
  row index as its rank and the file cursor as its file: the files taken by the characters
  before it in the row, a digit counting for its value and a letter for one. Neither the
  row sums nor the number of rows is checked, the pieces the board held before play no
  part, and the highlights, arrows and outlines of the board are emptied.
\<close>

theorem fromFen_replaces:
  "(let rows = js_split CHR ''/'' (hd (js_split CHR '' '' fen))
    in pieces (fromFen fen b) =
         concat (map (\<lambda>i. map (\<lambda>j. \<lparr>pieceSymbol = rows ! i ! j, rank = i,
                                      file' = spec_rowFiles (take j (rows ! i))\<rparr>)
                              (filter (\<lambda>j. digitValue (rows ! i ! j) = None)
                                 [0..<length (rows ! i)]))
                   [0..<length rows])
       \<and> concat (map (\<lambda>row. row @ ''/'') rows) = hd (js_split CHR '' '' fen) @ ''/''
       \<and> list_all (\<lambda>row. CHR ''/'' \<notin> set row) rows
       \<and> length (pieces (fromFen fen b))
           = length (filter (\<lambda>c. digitValue c = None) (concat rows)))
   \<and> (CHR '' '' \<notin> set p \<longrightarrow>
         hd (js_split CHR '' '' (p @ CHR '' '' # rest)) = p \<and> hd (js_split CHR '' '' p) = p)
   \<and> digitValue c = (if c \<in> set ''0123456789'' then Some (of_char c - 48) else None)
   \<and> pieces (fromFen fen b) = pieces (fromFen fen b')
   \<and> highlightedSquares (fromFen fen b) = {}
   \<and> arrows (fromFen fen b) = []
   \<and> outlinedSquares (fromFen fen b) = []"
proof -
  define rows where "rows = js_split CHR ''/'' (hd (js_split CHR '' '' fen))"
  have other: "highlightedSquares (fromFen fen b) = {}" "arrows (fromFen fen b) = []"
    "outlinedSquares (fromFen fen b) = []"
    by (simp_all add: fromFen_def Let_def clearOutlines_def clearArrows_def clearHighlights_def)
  have same: "pieces (fromFen fen b) = pieces (fromFen fen b')"
    by (simp add: fromFen_pieces)
  have ps: "pieces (fromFen fen b) = parseRows rows 0"
    by (simp add: fromFen_pieces rows_def)
  have A: "pieces (fromFen fen b) =
         concat (map (\<lambda>i. map (\<lambda>j. \<lparr>pieceSymbol = rows ! i ! j, rank = i,
                                      file' = spec_rowFiles (take j (rows ! i))\<rparr>)
                              (filter (\<lambda>j. digitValue (rows ! i ! j) = None)
                                 [0..<length (rows ! i)]))
                   [0..<length rows])"
    unfolding ps by (rule parseRows_explicit)
  have B: "concat (map (\<lambda>row. row @ ''/'') rows) = hd (js_split CHR '' '' fen) @ ''/''"
    unfolding rows_def by (rule js_split_join)
  have C: "list_all (\<lambda>row. CHR ''/'' \<notin> set row) rows"
    unfolding rows_def by (rule js_split_fields)
  have D: "length (pieces (fromFen fen b))
           = length (filter (\<lambda>c. digitValue c = None) (concat rows))"
    unfolding ps by (rule length_parseRows)
  have E: "CHR '' '' \<notin> set p \<longrightarrow>
         hd (js_split CHR '' '' (p @ CHR '' '' # rest)) = p \<and> hd (js_split CHR '' '' p) = p"
    using placement_field(1) [of p rest] placement_field(2) [of p] by simp
  have "(pieces (fromFen fen b) =
         concat (map (\<lambda>i. map (\<lambda>j. \<lparr>pieceSymbol = rows ! i ! j, rank = i,
                                      file' = spec_rowFiles (take j (rows ! i))\<rparr>)
                              (filter (\<lambda>j. digitValue (rows ! i ! j) = None)
                                 [0..<length (rows ! i)]))
                   [0..<length rows])
       \<and> concat (map (\<lambda>row. row @ ''/'') rows) = hd (js_split CHR '' '' fen) @ ''/''
       \<and> list_all (\<lambda>row. CHR ''/'' \<notin> set row) rows
       \<and> length (pieces (fromFen fen b))
           = length (filter (\<lambda>c. digitValue c = None) (concat rows)))
   \<and> (CHR '' '' \<notin> set p \<longrightarrow>
         hd (js_split CHR '' '' (p @ CHR '' '' # rest)) = p \<and> hd (js_split CHR '' '' p) = p)
   \<and> digitValue c = (if c \<in> set ''0123456789'' then Some (of_char c - 48) else None)
   \<and> pieces (fromFen fen b) = pieces (fromFen fen b')
   \<and> highlightedSquares (fromFen fen b) = {}
   \<and> arrows (fromFen fen b) = []
   \<and> outlinedSquares (fromFen fen b) = []"
    by (intro conjI A B C D E digitValue_digits same other)
  then show ?thesis unfolding rows_def Let_def .
qed

theorem fromFen_replaces_witness:
  "CHR '' '' \<notin> set ''k1K/2q''
   \<and> pieces (fromFen ''k1K/2q w'' newBoard) =
       [\<lparr>pieceSymbol = CHR ''k'', rank = 0, file' = 0\<rparr>,
        \<lparr>pieceSymbol = CHR ''K'', rank = 0, file' = 2\<rparr>,
        \<lparr>pieceSymbol = CHR ''q'', rank = 1, file' = 2\<rparr>]"
proof -
  have f: "hd (js_split CHR '' '' ''k1K/2q w'') = ''k1K/2q''"
    using fromFen_replaces [where p = "''k1K/2q''" and rest = "''w''"] by simp
  have d: "digitValue CHR ''k'' = None" "digitValue CHR ''K'' = None" "digitValue CHR ''q'' = None"
    "digitValue CHR ''1'' = Some 1" "digitValue CHR ''2'' = Some 2"
    using fromFen_replaces [where c = "CHR ''k''"] fromFen_replaces [where c = "CHR ''K''"]
      fromFen_replaces [where c = "CHR ''q''"] fromFen_replaces [where c = "CHR ''1''"]
      fromFen_replaces [where c = "CHR ''2''"]
    by simp_all
  have "pieces (fromFen ''k1K/2q w'' newBoard) =
       [\<lparr>pieceSymbol = CHR ''k'', rank = 0, file' = 0\<rparr>,
        \<lparr>pieceSymbol = CHR ''K'', rank = 0, file' = 2\<rparr>,
        \<lparr>pieceSymbol = CHR ''q'', rank = 1, file' = 2\<rparr>]"
    using fromFen_replaces [where fen = "''k1K/2q w''" and b = newBoard, THEN conjunct1]
    unfolding Let_def f
    by (simp add: d upt_rec_numeral)
  then show ?thesis by simp
qed

section \<open>Redrawing the board\<close>

lemma error_TypeError [simp]: "(e::error) = TypeError"
  by (cases e) simp

lemma concat_map_if:
  "concat (map (\<lambda>x. if P x then [] else [g x]) xs) = map g (filter (\<lambda>x. \<not> P x) xs)"
  by (induction xs) auto

lemma renderPieces_filter:
  "renderPieces b s = map (pieceEl b) (filter (\<lambda>p. isWhitePiece p = (whiteToMove b = s)) (pieces b))"
  unfolding renderPieces_def Let_def concat_map_if by simp

lemma renderArrowsLoop_defined:
  "list_all (\<lambda>a. renderAfterPieces a = after \<longrightarrow> move a \<noteq> None) as \<Longrightarrow>
   renderArrowsLoop b after as =
     Inr (map (\<lambda>a. ArrowShape (arrowShape b a (the (move a))))
            (filter (\<lambda>a. renderAfterPieces a = after) as))"
  by (induction as) auto

lemma renderArrowsLoop_undefined:
  "a \<in> set as \<Longrightarrow> renderAfterPieces a = after \<Longrightarrow> move a = None \<Longrightarrow>
   renderArrowsLoop b after as = Inl TypeError"
  by (induction as) (auto split: sum.splits option.splits)

lemma renderArrowsLoop_Inr:
  assumes "renderArrowsLoop b after as = Inr els"
  shows "list_all (\<lambda>a. renderAfterPieces a = after \<longrightarrow> move a \<noteq> None) as"
proof (rule ccontr)
  assume "\<not> list_all (\<lambda>a. renderAfterPieces a = after \<longrightarrow> move a \<noteq> None) as"
  then obtain a where "a \<in> set as" "renderAfterPieces a = after" "move a = None"
    by (auto simp: list_all_iff)
  from renderArrowsLoop_undefined [OF this] assms show False by simp
qed

lemma renderArrows_defined:
  "list_all (\<lambda>a. renderAfterPieces a = after \<longrightarrow> move a \<noteq> None) (arrows b) \<Longrightarrow>
   renderArrows b after =
     Inr (map (\<lambda>a. ArrowShape (arrowShape b a (the (move a))))
            (filter (\<lambda>a. renderAfterPieces a = after) (arrows b)))"
  unfolding renderArrows_def by (rule renderArrowsLoop_defined)

lemma renderArrows_Inr:
  assumes "renderArrows b after = Inr els"
  shows "els = map (\<lambda>a. ArrowShape (arrowShape b a (the (move a))))
            (filter (\<lambda>a. renderAfterPieces a = after) (arrows b))"
  using renderArrows_defined [OF renderArrowsLoop_Inr [OF assms [unfolded renderArrows_def]]] assms
  by simp

lemma renderOutlinesLoop_defined:
  "list_all is_OutlineObject vs \<Longrightarrow>
   renderOutlinesLoop b vs = Inr (map (\<lambda>v. outlineRect b (the_outline v)) vs)"
  by (induction vs) (auto split: OutlineValue.splits)

lemma renderOutlinesLoop_bare:
  "v \<in> set vs \<Longrightarrow> \<not> is_OutlineObject v \<Longrightarrow> renderOutlinesLoop b vs = Inl TypeError"
  by (induction vs) (auto split: OutlineValue.splits sum.splits)

lemma renderOutlinesLoop_Inr:
  assumes "renderOutlinesLoop b vs = Inr els"
  shows "list_all is_OutlineObject vs"
proof (rule ccontr)
  assume "\<not> list_all is_OutlineObject vs"
  then obtain v where "v \<in> set vs" "\<not> is_OutlineObject v"
    by (auto simp: list_all_iff)
  from renderOutlinesLoop_bare [OF this] assms show False by simp
qed

lemma renderOutlines_defined:
  "list_all is_OutlineObject (outlinedSquares b) \<Longrightarrow>
   renderOutlines b = Inr (map (\<lambda>v. outlineRect b (the_outline v)) (outlinedSquares b))"
  unfolding renderOutlines_def by (rule renderOutlinesLoop_defined)

lemma renderOutlines_Inr:
  assumes "renderOutlines b = Inr els"
  shows "els = map (\<lambda>v. outlineRect b (the_outline v)) (outlinedSquares b)"
  using renderOutlines_defined [OF renderOutlinesLoop_Inr [OF assms [unfolded renderOutlines_def]]] assms
  by simp




lemma render_undefined:
  assumes "\<not> (list_all is_OutlineObject (outlinedSquares b)
             \<and> list_all (\<lambda>a. move a \<noteq> None) (arrows b))"
  shows "render b = Inl TypeError"
proof (cases "list_all is_OutlineObject (outlinedSquares b)")
  case False
  then obtain v where "v \<in> set (outlinedSquares b)" "\<not> is_OutlineObject v"
    by (auto simp: list_all_iff)
  then have "renderOutlines b = Inl TypeError"
    unfolding renderOutlines_def by (rule renderOutlinesLoop_bare)
  then show ?thesis by (simp add: render_def Let_def)
next
  case True
  with assms obtain a where a: "a \<in> set (arrows b)" "move a = None"
    by (auto simp: list_all_iff)
  then have "renderArrows b (renderAfterPieces a) = Inl TypeError"
    unfolding renderArrows_def by (intro renderArrowsLoop_undefined [of a]) simp_all
  then show ?thesis
    by (cases "renderAfterPieces a") (auto simp: render_def Let_def split: sum.splits)
qed

lemmas jsnum_consts = SQUARE_SIZE_def BEAM_SPREAD_def Math_PI_def minus_jsnum_def

lemma boardSquare_explicit:
  "border b = Num bd \<Longrightarrow>
   boardSquare b r f =
     Rect (Num ((if flipped b then 7 - real f else real f) * 45 + bd))
          (Num ((if flipped b then real r else 7 - real r) * 45 + bd))
          (Num 45) (Num 45)
          (''square'' @ (if odd (r + f) then '' light'' else '' dark'')
             @ (if fileRanktoSquare r f \<in> highlightedSquares b then '' lastmove'' else []))"
proof -
  assume bd: "border b = Num bd"
  have p: "((r + f) mod 2 = 1) = odd (r + f)"
    by presburger
  show ?thesis
    unfolding boardSquare_def Let_def p
    by (simp add: jsnum_consts bd del: even_add)
qed

lemma pieceEl_explicit:
  "border b = Num bd \<Longrightarrow>
   pieceEl b p =
     Use (Num ((if flipped b then 7 - real (file' p) else real (file' p)) * 45 + bd))
         (Num ((if flipped b then 7 - real (rank p) else real (rank p)) * 45 + bd))
         (''/static/pieces.svg#piece-'' @ [pieceSymbol p])
         (if whiteToMove b = isWhitePiece p then Some '' side-to-move'' else None)"
  by (simp add: pieceEl_def jsnum_consts Let_def)

lemma outlineRect_explicit:
  "border b = Num bd \<Longrightarrow> squareToFileRank (square ol) = (Num fl, Num rk) \<Longrightarrow>
   inset ol = Num ins \<Longrightarrow>
   outlineRect b ol =
     Rect (Num ((if flipped b then 7 - fl else fl) * 45 + bd + ins / 2))
          (Num ((if flipped b then rk else 7 - rk) * 45 + bd + ins / 2))
          (Num (45 - ins)) (Num (45 - ins)) (className ol)"
  by (simp add: outlineRect_def jsnum_consts Let_def)

lemma arrowShape_fields:
  "ar_classes (arrowShape b a mv) = classes a" "ar_width (arrowShape b a mv) = width a"
  "ar_angle (arrowShape b a mv) = angle a" "ar_headLength (arrowShape b a mv) = headLength a"
  "ar_headWidth (arrowShape b a mv) = headWidth a"
  "ar_dashLength (arrowShape b a mv) = dashLength a"
  "ar_dashSpace (arrowShape b a mv) = dashSpace a"
  "ar_onlyOuterStroke (arrowShape b a mv) = (onlyOuterStroke a = Some True)"
  by (auto simp: arrowShape_def Let_def split: prod.splits option.splits)

lemma grid_nth:
  assumes "r < m" "f < 8"
  shows "concat (map (\<lambda>r. map (g r) [0..<8]) [0..<m]) ! (r * 8 + f) = g r f"
  using assms(1)
proof (induction m)
  case 0
  then show ?case by simp
next
  case (Suc m)
  have len: "length (concat (map (\<lambda>r. map (g r) [0..<8]) [0..<m])) = m * 8"
    by (simp add: length_concat comp_def sum_list_triv)
  show ?case
  proof (cases "r < m")
    case True
    then have "r * 8 + f < m * 8" using assms(2) by simp
    then show ?thesis using Suc.IH [OF True] by (simp add: nth_append len)
  next
    case False
    then have "r = m" using Suc.prems by simp
    then show ?thesis using assms(2) by (simp add: nth_append len)
  qed
qed

lemma renderBoard_nth:
  assumes "r < 8" "f < 8"
  shows "renderBoard b ! (r * 8 + f) = boardSquare b r f"
  unfolding renderBoard_def by (rule grid_nth [OF assms])

lemma fromFen_other_fields:
  "arrows (fromFen fen b) = []" "outlinedSquares (fromFen fen b) = []"
  "highlightedSquares (fromFen fen b) = {}" "flipped (fromFen fen b) = flipped b"
  "border (fromFen fen b) = border b" "boardClass (fromFen fen b) = boardClass b"
  by (simp_all add: fromFen_def Let_def clearOutlines_def clearArrows_def clearHighlights_def)

lemma addArrow_fields:
  "arrows (addArrow a b) = arrows b @ [a]" "pieces (addArrow a b) = pieces b"
  "outlinedSquares (addArrow a b) = outlinedSquares b"
  "highlightedSquares (addArrow a b) = highlightedSquares b"
  "flipped (addArrow a b) = flipped b" "border (addArrow a b) = border b"
  "whiteToMove (addArrow a b) = whiteToMove b"
  by (simp_all add: addArrow_def)

lemma addHighlight_fields:
  "highlightedSquares (addHighlight sq b) = insert sq (highlightedSquares b)"
  "arrows (addHighlight sq b) = arrows b" "pieces (addHighlight sq b) = pieces b"
  "outlinedSquares (addHighlight sq b) = outlinedSquares b"
  "flipped (addHighlight sq b) = flipped b" "border (addHighlight sq b) = border b"
  "whiteToMove (addHighlight sq b) = whiteToMove b"
  by (simp_all add: addHighlight_def)

lemma addOutline_object_fields:
  "outlinedSquares (addOutline (OutlineObject ol) b) = outlinedSquares b @ [OutlineObject ol]"
  "arrows (addOutline (OutlineObject ol) b) = arrows b"
  "pieces (addOutline (OutlineObject ol) b) = pieces b"
  "highlightedSquares (addOutline (OutlineObject ol) b) = highlightedSquares b"
  "flipped (addOutline (OutlineObject ol) b) = flipped b"
  "border (addOutline (OutlineObject ol) b) = border b"
  "whiteToMove (addOutline (OutlineObject ol) b) = whiteToMove b"
  by (simp_all add: addOutline_def)

lemma newBoard_fields:
  "border newBoard = Num 0" "\<not> flipped newBoard" "arrows newBoard = []"
  "outlinedSquares newBoard = []" "highlightedSquares newBoard = {}"
  by (simp_all add: newBoard_def fromFen_other_fields)

lemma start_whiteToMove:
  "whiteToMove (fromFen ''rnbqkbnr/pppppppp/8/8/8/8/PPPPPPPP/RNBQKBNR w'' b)"
  using whiteToMove_field(1) [of "''rnbqkbnr/pppppppp/8/8/8/8/PPPPPPPP/RNBQKBNR''" "''w''" b]
  by simp

lemma start_pieces:
  "pieces (fromFen ''rnbqkbnr/pppppppp/8/8/8/8/PPPPPPPP/RNBQKBNR w'' b) =
     parseRows [''rnbqkbnr'', ''pppppppp'', ''8'', ''8'', ''8'', ''8'', ''PPPPPPPP'', ''RNBQKBNR''] 0"
  using start_position_rows [of "''w''" b] by simp


text \<open>The outlines that \<^verbatim>\<open>board_area.ts\<close> stores are bare strings: after
  \<^verbatim>\<open>renderMovePlayedOutline\<close> the next redraw raises.\<close>

lemma render_after_renderMovePlayedOutline:
  "render (renderMovePlayedOutline mv b) = Inl TypeError"
proof -
  have mem: "BareString (slice mv 0 2) \<in> set (outlinedSquares (renderMovePlayedOutline mv b))"
    by (simp add: renderMovePlayedOutline_def addOutline_def clearOutlines_def)
  have "\<not> list_all is_OutlineObject (outlinedSquares (renderMovePlayedOutline mv b))"
  proof
    assume "list_all is_OutlineObject (outlinedSquares (renderMovePlayedOutline mv b))"
    then have "\<forall>v \<in> set (outlinedSquares (renderMovePlayedOutline mv b)). is_OutlineObject v"
      by (simp add: list_all_iff)
    then have "is_OutlineObject (BareString (slice mv 0 2))"
      using mem by (rule bspec)
    then show False by simp
  qed
  then show ?thesis by (intro render_undefined) simp
qed



section \<open>Arrows on the board\<close>

lemma real_Suc_nonzero: "real n + 1 \<noteq> 0"
  by (metis of_nat_Suc of_nat_eq_0_iff nat.distinct(1) add.commute)

lemma arrowShape_coords:
  assumes "squareToFileRank (slice mv 0 2) = (Num fo, Num ro)"
    and "squareToFileRank (slice mv 2 4) = (Num fd, Num rd)"
    and "offset a = Num (real i)" and "totalOffsets a = Num (real n)"
    and "offsetDirection a = Num d" and "border b = Num bd"
  shows "x1 (arrowShape b a mv) =
           Num ((if flipped b then 7 - fo else fo) * 45 + 45 / 2 + bd
                + sin (d * pi / 180) * (((real i + 1) / (real n + 1) - 1 / 2) * 55))"
    and "y1 (arrowShape b a mv) =
           Num ((if flipped b then ro else 7 - ro) * 45 + 45 / 2 + bd
                + cos (d * pi / 180) * (((real i + 1) / (real n + 1) - 1 / 2) * 55))"
    and "x2 (arrowShape b a mv) =
           Num ((if flipped b then 7 - fd else fd) * 45 + 45 / 2 + bd
                + sin (d * pi / 180) * (((real i + 1) / (real n + 1) - 1 / 2) * 55))"
    and "y2 (arrowShape b a mv) =
           Num ((if flipped b then rd else 7 - rd) * 45 + 45 / 2 + bd
                + cos (d * pi / 180) * (((real i + 1) / (real n + 1) - 1 / 2) * 55))"
  using assms real_Suc_nonzero [of n]
  by (simp_all add: arrowShape_def jsnum_consts)

lemma arrowShape_explicit:
  assumes "squareToFileRank (slice mv 0 2) = (Num fo, Num ro)"
    and "squareToFileRank (slice mv 2 4) = (Num fd, Num rd)"
    and "offset a = Num (real i)" and "totalOffsets a = Num (real n)"
    and "offsetDirection a = Num d" and "border b = Num bd"
  shows "arrowShape b a mv =
     \<lparr>x1 = Num ((if flipped b then 7 - fo else fo) * 45 + 45 / 2 + bd
                + sin (d * pi / 180) * (((real i + 1) / (real n + 1) - 1 / 2) * 55)),
      y1 = Num ((if flipped b then ro else 7 - ro) * 45 + 45 / 2 + bd
                + cos (d * pi / 180) * (((real i + 1) / (real n + 1) - 1 / 2) * 55)),
      x2 = Num ((if flipped b then 7 - fd else fd) * 45 + 45 / 2 + bd
                + sin (d * pi / 180) * (((real i + 1) / (real n + 1) - 1 / 2) * 55)),
      y2 = Num ((if flipped b then rd else 7 - rd) * 45 + 45 / 2 + bd
                + cos (d * pi / 180) * (((real i + 1) / (real n + 1) - 1 / 2) * 55)),
      ar_classes = classes a, ar_width = width a, ar_angle = angle a,
      ar_headLength = headLength a, ar_headWidth = headWidth a,
      ar_dashLength = dashLength a, ar_dashSpace = dashSpace a,
      ar_onlyOuterStroke = (onlyOuterStroke a = Some True)\<rparr>"
  by (rule Arrow.equality)
     (simp_all add: arrowShape_coords [OF assms] arrowShape_fields)

lemma renderArrows_undefined:
  assumes "\<not> list_all (\<lambda>a. renderAfterPieces a = after \<longrightarrow> move a \<noteq> None) (arrows b)"
  shows "renderArrows b after = Inl TypeError"
proof -
  from assms obtain a where "a \<in> set (arrows b)" "renderAfterPieces a = after" "move a = None"
    by (auto simp: list_all_iff)
  then show ?thesis
    unfolding renderArrows_def by (rule renderArrowsLoop_undefined)
qed

lemma renderArrows_nth:
  assumes "renderArrows b after = Inr els"
    and "j < length (filter (\<lambda>a. renderAfterPieces a = after) (arrows b))"
    and "filter (\<lambda>a. renderAfterPieces a = after) (arrows b) ! j = a"
    and "move a = Some mv"
  shows "els ! j = ArrowShape (arrowShape b a mv)"
  unfolding renderArrows_Inr [OF assms(1)] using assms(2-4) by simp

text \<open>
  \<^bold>\<open>C7.\<close> \<^verbatim>\<open>renderArrows\<close> draws, in the order of the list, one arrow for every arrow of the
  board whose \<open>renderAfterPieces\<close> flag is the requested one (it raises a TypeError when one
  of them has no move). For such an arrow with move \<open>mv\<close>, offset index \<open>i\<close>, lane total \<open>N\<close>
  and offset direction \<open>d\<close> degrees, let \<open>t = ((i+1)/(N+1) - 1/2) * 55\<close> (55 is
  \<^verbatim>\<open>BEAM_SPREAD\<close>), \<open>dx = sin(d\<pi>/180) t\<close> and \<open>dy = cos(d\<pi>/180) t\<close>. The arrow drawn runs from
  the centre of the origin square of \<open>mv\<close> shifted by \<open>(dx, dy)\<close> to the centre of the
  destination square of \<open>mv\<close> shifted by the same \<open>(dx, dy)\<close>; its other attributes are those of
  the stored arrow.
\<close>

theorem arrowShape_displacement:
  "(list_all (\<lambda>a. renderAfterPieces a = after \<longrightarrow> move a \<noteq> None) (arrows b) \<longrightarrow>
      renderArrows b after =
        Inr (map (\<lambda>a. ArrowShape (arrowShape b a (the (move a))))
               (filter (\<lambda>a. renderAfterPieces a = after) (arrows b))))
   \<and> (\<not> list_all (\<lambda>a. renderAfterPieces a = after \<longrightarrow> move a \<noteq> None) (arrows b) \<longrightarrow>
        renderArrows b after = Inl TypeError)
   \<and> (renderArrows b after = Inr els
        \<and> j < length (filter (\<lambda>a. renderAfterPieces a = after) (arrows b))
        \<and> filter (\<lambda>a. renderAfterPieces a = after) (arrows b) ! j = a
        \<and> move a = Some mv
        \<and> squareToFileRank (slice mv 0 2) = (Num fo, Num ro)
        \<and> squareToFileRank (slice mv 2 4) = (Num fd, Num rd)
        \<and> offset a = Num (real i) \<and> totalOffsets a = Num (real N)
        \<and> offsetDirection a = Num d \<and> border b = Num bd \<longrightarrow>
        (let t = ((real i + 1) / (real N + 1) - 1 / 2) * 55;
             dx = sin (d * pi / 180) * t;
             dy = cos (d * pi / 180) * t;
             cx = (\<lambda>f. (if flipped b then 7 - f else f) * 45 + 45 / 2 + bd);
             cy = (\<lambda>r. (if flipped b then r else 7 - r) * 45 + 45 / 2 + bd)
         in els ! j =
              ArrowShape \<lparr>x1 = Num (cx fo + dx), y1 = Num (cy ro + dy),
                          x2 = Num (cx fd + dx), y2 = Num (cy rd + dy),
                          ar_classes = classes a, ar_width = width a, ar_angle = angle a,
                          ar_headLength = headLength a, ar_headWidth = headWidth a,
                          ar_dashLength = dashLength a, ar_dashSpace = dashSpace a,
                          ar_onlyOuterStroke = (onlyOuterStroke a = Some True)\<rparr>))"
proof (intro conjI impI)
  assume "list_all (\<lambda>a. renderAfterPieces a = after \<longrightarrow> move a \<noteq> None) (arrows b)"
  then show "renderArrows b after =
        Inr (map (\<lambda>a. ArrowShape (arrowShape b a (the (move a))))
               (filter (\<lambda>a. renderAfterPieces a = after) (arrows b)))"
    by (rule renderArrows_defined)
next
  assume "\<not> list_all (\<lambda>a. renderAfterPieces a = after \<longrightarrow> move a \<noteq> None) (arrows b)"
  then show "renderArrows b after = Inl TypeError"
    by (rule renderArrows_undefined)
next
  assume h: "renderArrows b after = Inr els
        \<and> j < length (filter (\<lambda>a. renderAfterPieces a = after) (arrows b))
        \<and> filter (\<lambda>a. renderAfterPieces a = after) (arrows b) ! j = a
        \<and> move a = Some mv
        \<and> squareToFileRank (slice mv 0 2) = (Num fo, Num ro)
        \<and> squareToFileRank (slice mv 2 4) = (Num fd, Num rd)
        \<and> offset a = Num (real i) \<and> totalOffsets a = Num (real N)
        \<and> offsetDirection a = Num d \<and> border b = Num bd"
  then have e: "els ! j = ArrowShape (arrowShape b a mv)"
    by (intro renderArrows_nth [of b after]) simp_all
  from h have "arrowShape b a mv =
     \<lparr>x1 = Num ((if flipped b then 7 - fo else fo) * 45 + 45 / 2 + bd
                + sin (d * pi / 180) * (((real i + 1) / (real N + 1) - 1 / 2) * 55)),
      y1 = Num ((if flipped b then ro else 7 - ro) * 45 + 45 / 2 + bd
                + cos (d * pi / 180) * (((real i + 1) / (real N + 1) - 1 / 2) * 55)),
      x2 = Num ((if flipped b then 7 - fd else fd) * 45 + 45 / 2 + bd
                + sin (d * pi / 180) * (((real i + 1) / (real N + 1) - 1 / 2) * 55)),
      y2 = Num ((if flipped b then rd else 7 - rd) * 45 + 45 / 2 + bd
                + cos (d * pi / 180) * (((real i + 1) / (real N + 1) - 1 / 2) * 55)),
      ar_classes = classes a, ar_width = width a, ar_angle = angle a,
      ar_headLength = headLength a, ar_headWidth = headWidth a,
      ar_dashLength = dashLength a, ar_dashSpace = dashSpace a,
      ar_onlyOuterStroke = (onlyOuterStroke a = Some True)\<rparr>"
    by (intro arrowShape_explicit) simp_all
  with e show "let t = ((real i + 1) / (real N + 1) - 1 / 2) * 55;
             dx = sin (d * pi / 180) * t;
             dy = cos (d * pi / 180) * t;
             cx = (\<lambda>f. (if flipped b then 7 - f else f) * 45 + 45 / 2 + bd);
             cy = (\<lambda>r. (if flipped b then r else 7 - r) * 45 + 45 / 2 + bd)
         in els ! j =
              ArrowShape \<lparr>x1 = Num (cx fo + dx), y1 = Num (cy ro + dy),
                          x2 = Num (cx fd + dx), y2 = Num (cy rd + dy),
                          ar_classes = classes a, ar_width = width a, ar_angle = angle a,
                          ar_headLength = headLength a, ar_headWidth = headWidth a,
                          ar_dashLength = dashLength a, ar_dashSpace = dashSpace a,
                          ar_onlyOuterStroke = (onlyOuterStroke a = Some True)\<rparr>"
    by (simp only: Let_def)
qed

theorem arrowShape_displacement_witness:
  "renderArrows
     (addArrow \<lparr>move = Some ''e2e4'', classes = ''arrow'', width = Num 16, angle = Num 0,
                headLength = Num 20, headWidth = Num 29, dashLength = Num 1000, dashSpace = Num 0,
                renderAfterPieces = False, offset = Num 1, totalOffsets = Num 2,
                offsetDirection = Num 90, onlyOuterStroke = None\<rparr>
        (addArrow \<lparr>move = Some ''g1f3'', classes = ''arrow'', width = Num 9, angle = Num 0,
                   headLength = Num 20, headWidth = Num 29, dashLength = Num 1000,
                   dashSpace = Num 0, renderAfterPieces = True, offset = Num 0,
                   totalOffsets = Num 1, offsetDirection = Num 117, onlyOuterStroke = None\<rparr>
           newBoard)) False =
     Inr [ArrowShape \<lparr>x1 = Num (4 * 45 + 45 / 2 + 55 / 6), y1 = Num (6 * 45 + 45 / 2),
                      x2 = Num (4 * 45 + 45 / 2 + 55 / 6), y2 = Num (4 * 45 + 45 / 2),
                      ar_classes = ''arrow'', ar_width = Num 16, ar_angle = Num 0,
                      ar_headLength = Num 20, ar_headWidth = Num 29,
                      ar_dashLength = Num 1000, ar_dashSpace = Num 0,
                      ar_onlyOuterStroke = False\<rparr>]
   \<and> renderArrows
       (addArrow \<lparr>move = None, classes = ''arrow'', width = Num 16, angle = Num 0,
                  headLength = Num 20, headWidth = Num 29, dashLength = Num 1000,
                  dashSpace = Num 0, renderAfterPieces = False, offset = Num 0,
                  totalOffsets = Num 1, offsetDirection = Num 90, onlyOuterStroke = None\<rparr>
          newBoard) False = Inl TypeError"
proof -
  define A1 where "A1 = \<lparr>move = Some ''g1f3'', classes = ''arrow'', width = Num 9, angle = Num 0,
                   headLength = Num 20, headWidth = Num 29, dashLength = Num 1000,
                   dashSpace = Num 0, renderAfterPieces = True, offset = Num 0,
                   totalOffsets = Num 1, offsetDirection = Num 117, onlyOuterStroke = None\<rparr>"
  define A2 where "A2 = \<lparr>move = Some ''e2e4'', classes = ''arrow'', width = Num 16, angle = Num 0,
                headLength = Num 20, headWidth = Num 29, dashLength = Num 1000, dashSpace = Num 0,
                renderAfterPieces = False, offset = Num 1, totalOffsets = Num 2,
                offsetDirection = Num 90, onlyOuterStroke = None\<rparr>"
  define A0 where "A0 = \<lparr>move = None, classes = ''arrow'', width = Num 16, angle = Num 0,
                  headLength = Num 20, headWidth = Num 29, dashLength = Num 1000,
                  dashSpace = Num 0, renderAfterPieces = False, offset = Num 0,
                  totalOffsets = Num 1, offsetDirection = Num 90, onlyOuterStroke = None\<rparr>"
  define B where "B = addArrow A2 (addArrow A1 newBoard)"
  have ar: "arrows B = [A1, A2]" and bd: "border B = Num 0" and fl: "\<not> flipped B"
    by (simp_all add: B_def addArrow_fields newBoard_fields)
  have a1: "renderAfterPieces A1" "move A1 = Some ''g1f3''"
    by (simp_all add: A1_def)
  have a2: "\<not> renderAfterPieces A2" "move A2 = Some ''e2e4''" "offset A2 = Num (real 1)"
    "totalOffsets A2 = Num (real 2)" "offsetDirection A2 = Num 90" "classes A2 = ''arrow''"
    "width A2 = Num 16" "angle A2 = Num 0" "headLength A2 = Num 20" "headWidth A2 = Num 29"
    "dashLength A2 = Num 1000" "dashSpace A2 = Num 0" "onlyOuterStroke A2 = None"
    by (simp_all add: A2_def)
  have flt: "filter (\<lambda>a. renderAfterPieces a = False) (arrows B) = [A2]"
    by (simp add: ar a1 a2)
  have ok: "list_all (\<lambda>a. renderAfterPieces a = False \<longrightarrow> move a \<noteq> None) (arrows B)"
    by (simp add: ar a1 a2)
  have sq: "squareToFileRank (slice ''e2e4'' 0 2) = (Num 4, Num 1)"
    "squareToFileRank (slice ''e2e4'' 2 4) = (Num 4, Num 3)"
    by (simp_all add: square_simps)
  have s: "sin (90 * pi / 180 :: real) = 1" "cos (90 * pi / 180 :: real) = 0"
    by simp_all
  note inst = arrowShape_displacement [where b = B and after = False
      and els = "[ArrowShape (arrowShape B A2 ''e2e4'')]" and j = 0 and a = A2
      and mv = "''e2e4''" and fo = 4 and ro = 1 and fd = 4 and rd = 3 and i = 1 and N = 2
      and d = 90 and bd = 0]
  have r: "renderArrows B False = Inr [ArrowShape (arrowShape B A2 ''e2e4'')]"
    using inst ok flt by (simp add: a2)
  have "[ArrowShape (arrowShape B A2 ''e2e4'')] ! 0 =
      ArrowShape \<lparr>x1 = Num (4 * 45 + 45 / 2 + 55 / 6), y1 = Num (6 * 45 + 45 / 2),
                      x2 = Num (4 * 45 + 45 / 2 + 55 / 6), y2 = Num (4 * 45 + 45 / 2),
                      ar_classes = ''arrow'', ar_width = Num 16, ar_angle = Num 0,
                      ar_headLength = Num 20, ar_headWidth = Num 29,
                      ar_dashLength = Num 1000, ar_dashSpace = Num 0,
                      ar_onlyOuterStroke = False\<rparr>"
    using inst r sq a2 bd fl flt by (simp add: s Let_def)
  then have first: "renderArrows B False =
     Inr [ArrowShape \<lparr>x1 = Num (4 * 45 + 45 / 2 + 55 / 6), y1 = Num (6 * 45 + 45 / 2),
                      x2 = Num (4 * 45 + 45 / 2 + 55 / 6), y2 = Num (4 * 45 + 45 / 2),
                      ar_classes = ''arrow'', ar_width = Num 16, ar_angle = Num 0,
                      ar_headLength = Num 20, ar_headWidth = Num 29,
                      ar_dashLength = Num 1000, ar_dashSpace = Num 0,
                      ar_onlyOuterStroke = False\<rparr>]"
    using r by simp
  have "\<not> list_all (\<lambda>a. renderAfterPieces a = False \<longrightarrow> move a \<noteq> None)
           (arrows (addArrow A0 newBoard))"
    by (simp add: addArrow_fields newBoard_fields A0_def)
  then have second: "renderArrows (addArrow A0 newBoard) False = Inl TypeError"
    using arrowShape_displacement [where b = "addArrow A0 newBoard" and after = False]
    by (simp only: simp_thms)
  show ?thesis
    using first second unfolding B_def A0_def A1_def A2_def by (intro conjI)
qed

section \<open>The vertical coordinate of a square\<close>

lemma fileRanktoSquare_name:
  assumes "r < 8" "f < 8"
  shows "fileRanktoSquare r f = [''abcdefgh'' ! f, ''12345678'' ! r]"
  using nat_lt8_cases [OF assms(1)] nat_lt8_cases [OF assms(2)]
  by (auto simp: fileRanktoSquare_def at_index_def toString_digit digitChar_def)

lemma renderBoard_square:
  assumes "r < 8" "f < 8" "border b = Num bd"
  shows "renderBoard b ! (r * 8 + f) =
     Rect (Num ((if flipped b then 7 - real f else real f) * 45 + bd))
          (Num ((if flipped b then real r else 7 - real r) * 45 + bd))
          (Num 45) (Num 45)
          (''square'' @ (if odd (r + f) then '' light'' else '' dark'')
             @ (if fileRanktoSquare r f \<in> highlightedSquares b then '' lastmove'' else []))"
  unfolding renderBoard_nth [OF assms(1,2)] by (rule boardSquare_explicit [OF assms(3)])

lemma renderBoard_highlight:
  assumes "r < 8" "f < 8" "border b = Num bd"
  shows "renderBoard (addHighlight (fileRanktoSquare r f) b) ! (r * 8 + f) =
     Rect (Num ((if flipped b then 7 - real f else real f) * 45 + bd))
          (Num ((if flipped b then real r else 7 - real r) * 45 + bd))
          (Num 45) (Num 45)
          (''square'' @ (if odd (r + f) then '' light'' else '' dark'') @ '' lastmove'')"
proof -
  have "border (addHighlight (fileRanktoSquare r f) b) = Num bd"
    by (simp add: addHighlight_fields assms(3))
  from renderBoard_square [OF assms(1,2) this] show ?thesis
    by (simp add: addHighlight_fields del: even_add)
qed

lemma renderOutlines_nth:
  assumes "renderOutlines b = Inr els" "j < length (outlinedSquares b)"
    "outlinedSquares b ! j = OutlineObject ol" "square ol = fileRanktoSquare r f"
    "inset ol = Num ins" "r < 8" "f < 8" "border b = Num bd"
  shows "els ! j =
     Rect (Num ((if flipped b then 7 - real f else real f) * 45 + bd + ins / 2))
          (Num ((if flipped b then real r else 7 - real r) * 45 + bd + ins / 2))
          (Num (45 - ins)) (Num (45 - ins)) (className ol)"
proof -
  have "squareToFileRank (square ol) = (Num (real f), Num (real r))"
    using assms(4,6,7) by (simp add: squareToFileRank_name)
  from outlineRect_explicit [OF assms(8) this assms(5)] show ?thesis
    unfolding renderOutlines_Inr [OF assms(1)] using assms(2,3) by simp
qed

lemma arrowShape_y1:
  assumes "squareToFileRank (slice mv 0 2) = (Num fo, Num ro)"
    and "offset a = Num (real i)" and "totalOffsets a = Num (real n)"
    and "offsetDirection a = Num d" and "border b = Num bd"
  shows "y1 (arrowShape b a mv) =
           Num ((if flipped b then ro else 7 - ro) * 45 + bd + 45 / 2
                + cos (d * pi / 180) * (((real i + 1) / (real n + 1) - 1 / 2) * 55))"
  using assms real_Suc_nonzero [of n]
  by (simp add: arrowShape_def jsnum_consts split: prod.splits)

lemma arrowShape_y2:
  assumes "squareToFileRank (slice mv 2 4) = (Num fd, Num rd)"
    and "offset a = Num (real i)" and "totalOffsets a = Num (real n)"
    and "offsetDirection a = Num d" and "border b = Num bd"
  shows "y2 (arrowShape b a mv) =
           Num ((if flipped b then rd else 7 - rd) * 45 + bd + 45 / 2
                + cos (d * pi / 180) * (((real i + 1) / (real n + 1) - 1 / 2) * 55))"
  using assms real_Suc_nonzero [of n]
  by (simp add: arrowShape_def jsnum_consts split: prod.splits)

lemma renderPieces_nth:
  assumes "m < length (filter (\<lambda>p. isWhitePiece p = (whiteToMove b = s)) (pieces b))"
    "filter (\<lambda>p. isWhitePiece p = (whiteToMove b = s)) (pieces b) ! m = p" "border b = Num bd"
  shows "renderPieces b s ! m =
     Use (Num ((if flipped b then 7 - real (file' p) else real (file' p)) * 45 + bd))
         (Num ((if flipped b then 7 - real (rank p) else real (rank p)) * 45 + bd))
         (''/static/pieces.svg#piece-'' @ [pieceSymbol p])
         (if whiteToMove b = isWhitePiece p then Some '' side-to-move'' else None)"
  unfolding renderPieces_filter using assms(1,2) pieceEl_explicit [OF assms(3), of p] by simp

lemma rank_parseRow:
  "map rank (parseRow i row f) = replicate (length (filter (\<lambda>c. digitValue c = None) row)) i"
  by (induction row arbitrary: f) (auto split: option.splits)

lemma rank_parseRows:
  "map rank (parseRows rows 0) =
     concat (map (\<lambda>i. replicate (length (filter (\<lambda>c. digitValue c = None) (rows ! i))) i)
               [0..<length rows])"
  by (simp add: parseRows_index map_concat comp_def rank_parseRow)

text \<open>
  \<^bold>\<open>C4\<close> as stated fails for pieces. A piece carries the row index of the placement
  notation, and \<^verbatim>\<open>renderPieces\<close> draws row index 0 at the top of an unflipped board: the
  first piece of the starting position has row index 0 and is drawn at \<open>y = 0\<close>, where the
  claimed formula gives \<open>(7 - 0) * 45 + 0 = 315\<close>.
\<close>

theorem piece_y_counterexample:
  "rank (hd (pieces newBoard)) = 0
   \<and> \<not> flipped newBoard
   \<and> hd (renderPieces newBoard False) = pieceEl newBoard (hd (pieces newBoard))
   \<and> use_y (pieceEl newBoard (hd (pieces newBoard))) = Num 0
   \<and> (if flipped newBoard then Num (real (rank (hd (pieces newBoard))))
        else Num 7 - Num (real (rank (hd (pieces newBoard))))) * SQUARE_SIZE + border newBoard
       = Num 315"
proof -
  have nb: "border newBoard = Num 0" "\<not> flipped newBoard" "whiteToMove newBoard"
    using start_whiteToMove by (simp_all add: newBoard_def fromFen_other_fields)
  have ps: "pieces newBoard =
     parseRows [''rnbqkbnr'', ''pppppppp'', ''8'', ''8'', ''8'', ''8'', ''PPPPPPPP'', ''RNBQKBNR''] 0"
    using start_pieces by (simp add: newBoard_def)
  have h: "hd (pieces newBoard) = \<lparr>pieceSymbol = CHR ''r'', rank = 0, file' = 0\<rparr>"
    unfolding ps by (simp add: digitValue_def)
  have nw: "\<not> isWhitePiece (hd (pieces newBoard))"
    unfolding h by (simp add: isWhitePiece_iff)
  define P where "P = (\<lambda>p. isWhitePiece p = (whiteToMove newBoard = False))"
  have Ph: "P (hd (pieces newBoard))"
    using nw nb(3) by (simp add: P_def)
  have sp: "pieces newBoard = hd (pieces newBoard) # tl (pieces newBoard)"
    unfolding ps by (simp add: digitValue_def)
  have "hd (filter P (pieces newBoard)) = hd (pieces newBoard)"
    by (subst sp) (simp add: Ph)
  moreover have "filter P (pieces newBoard) \<noteq> []"
    by (subst sp) (simp add: Ph)
  ultimately have r: "hd (renderPieces newBoard False) = pieceEl newBoard (hd (pieces newBoard))"
    unfolding renderPieces_filter P_def by (simp add: hd_map)
  show ?thesis
    using r nb by (simp add: pieceEl_explicit [OF nb(1)] h jsnum_consts)
qed

text \<open>
  \<^bold>\<open>C4, amended.\<close> For every square with file and rank index in \<open>[0,7]\<close> and every orientation,
  let \<open>y = (flipped ? rank : 7 - rank) * 45 + border\<close>, with \<open>rank\<close> the rank index of the
  square's name (\<^verbatim>\<open>fileRanktoSquare(rank, file)\<close>, the file letter followed by the digit
  \<open>rank + 1\<close>). In what a redraw emits:
  the rectangle of the board square has its top edge at \<open>y\<close>, and it carries the class
  \<^verbatim>\<open>lastmove\<close> exactly when the square's name is highlighted;
  the rectangle of an outline stored as an \<^verbatim>\<open>Outline\<close> object for that square has its top edge
  at \<open>y\<close> plus half the inset;
  an arrow whose move starts (ends) on the square has the vertical coordinate of its first
  (second) endpoint at \<open>y\<close> plus half a square plus the lane displacement \<open>dy\<close>.
  A piece is stored by \<^verbatim>\<open>fromFen\<close> with the row index of its row of the placement notation,
  and is drawn at \<open>(flipped ? 7 - row : row) * 45 + border\<close>: this is \<open>y\<close> for the piece of row
  \<open>7 - rank\<close>.
\<close>

theorem square_y_transform:
  assumes "r < 8" "f < 8" "border b = Num bd"
  shows "let x = (if flipped b then 7 - real f else real f) * 45 + bd;
             y = (if flipped b then real r else 7 - real r) * 45 + bd;
             dy = cos (d * pi / 180) * (((real i + 1) / (real N + 1) - 1 / 2) * 55);
             shade = (if odd (r + f) then '' light'' else '' dark'');
             rows = js_split CHR ''/'' (hd (js_split CHR '' '' fen))
         in fileRanktoSquare r f = [''abcdefgh'' ! f, ''12345678'' ! r]
          \<and> renderBoard b ! (r * 8 + f) =
              Rect (Num x) (Num y) (Num 45) (Num 45)
                (''square'' @ shade
                   @ (if fileRanktoSquare r f \<in> highlightedSquares b then '' lastmove'' else []))
          \<and> renderBoard (addHighlight (fileRanktoSquare r f) b) ! (r * 8 + f) =
              Rect (Num x) (Num y) (Num 45) (Num 45) (''square'' @ shade @ '' lastmove'')
          \<and> (renderOutlines b = Inr els \<and> j < length (outlinedSquares b)
               \<and> outlinedSquares b ! j = OutlineObject ol
               \<and> square ol = fileRanktoSquare r f \<and> inset ol = Num ins \<longrightarrow>
                els ! j = Rect (Num (x + ins / 2)) (Num (y + ins / 2)) (Num (45 - ins))
                            (Num (45 - ins)) (className ol))
          \<and> (renderArrows b after = Inr ars
               \<and> k < length (filter (\<lambda>a. renderAfterPieces a = after) (arrows b))
               \<and> filter (\<lambda>a. renderAfterPieces a = after) (arrows b) ! k = a
               \<and> move a = Some mv
               \<and> offset a = Num (real i) \<and> totalOffsets a = Num (real N)
               \<and> offsetDirection a = Num d \<longrightarrow>
                (slice mv 0 2 = fileRanktoSquare r f \<longrightarrow>
                   y1 (the_arrow (ars ! k)) = Num (y + 45 / 2 + dy))
                \<and> (slice mv 2 4 = fileRanktoSquare r f \<longrightarrow>
                   y2 (the_arrow (ars ! k)) = Num (y + 45 / 2 + dy)))
          \<and> (m < length (filter (\<lambda>p. isWhitePiece p = (whiteToMove b = s)) (pieces b))
               \<and> filter (\<lambda>p. isWhitePiece p = (whiteToMove b = s)) (pieces b) ! m = p \<longrightarrow>
                use_y (renderPieces b s ! m)
                  = Num ((if flipped b then 7 - real (rank p) else real (rank p)) * 45 + bd)
                \<and> (rank p = 7 - r \<longrightarrow> use_y (renderPieces b s ! m) = Num y))
          \<and> map rank (pieces (fromFen fen b)) =
              concat (map (\<lambda>i. replicate (length (filter (\<lambda>c. digitValue c = None) (rows ! i))) i)
                        [0..<length rows])"
proof -
  have sq: "squareToFileRank (fileRanktoSquare r f) = (Num (real f), Num (real r))"
    using assms by (simp add: squareToFileRank_name)
  have c4: "renderOutlines b = Inr els \<and> j < length (outlinedSquares b)
               \<and> outlinedSquares b ! j = OutlineObject ol
               \<and> square ol = fileRanktoSquare r f \<and> inset ol = Num ins \<longrightarrow>
                els ! j = Rect (Num ((if flipped b then 7 - real f else real f) * 45 + bd + ins / 2))
                            (Num ((if flipped b then real r else 7 - real r) * 45 + bd + ins / 2))
                            (Num (45 - ins)) (Num (45 - ins)) (className ol)"
    using renderOutlines_nth [of b els j ol r f ins bd] assms by simp
  have c5: "renderArrows b after = Inr ars
               \<and> k < length (filter (\<lambda>a. renderAfterPieces a = after) (arrows b))
               \<and> filter (\<lambda>a. renderAfterPieces a = after) (arrows b) ! k = a
               \<and> move a = Some mv
               \<and> offset a = Num (real i) \<and> totalOffsets a = Num (real N)
               \<and> offsetDirection a = Num d \<longrightarrow>
                (slice mv 0 2 = fileRanktoSquare r f \<longrightarrow>
                   y1 (the_arrow (ars ! k)) =
                     Num ((if flipped b then real r else 7 - real r) * 45 + bd + 45 / 2
                          + cos (d * pi / 180) * (((real i + 1) / (real N + 1) - 1 / 2) * 55)))
                \<and> (slice mv 2 4 = fileRanktoSquare r f \<longrightarrow>
                   y2 (the_arrow (ars ! k)) =
                     Num ((if flipped b then real r else 7 - real r) * 45 + bd + 45 / 2
                          + cos (d * pi / 180) * (((real i + 1) / (real N + 1) - 1 / 2) * 55)))"
  proof (intro impI conjI)
    assume h: "renderArrows b after = Inr ars
               \<and> k < length (filter (\<lambda>a. renderAfterPieces a = after) (arrows b))
               \<and> filter (\<lambda>a. renderAfterPieces a = after) (arrows b) ! k = a
               \<and> move a = Some mv
               \<and> offset a = Num (real i) \<and> totalOffsets a = Num (real N)
               \<and> offsetDirection a = Num d"
    then have e: "the_arrow (ars ! k) = arrowShape b a mv"
      using renderArrows_nth [of b after ars k a mv] by simp
    {
      assume "slice mv 0 2 = fileRanktoSquare r f"
      then have "squareToFileRank (slice mv 0 2) = (Num (real f), Num (real r))"
        using sq by simp
      from arrowShape_y1 [OF this _ _ _ assms(3), of a i N d] h
      show "y1 (the_arrow (ars ! k)) =
                     Num ((if flipped b then real r else 7 - real r) * 45 + bd + 45 / 2
                          + cos (d * pi / 180) * (((real i + 1) / (real N + 1) - 1 / 2) * 55))"
        unfolding e by simp
    }
    {
      assume "slice mv 2 4 = fileRanktoSquare r f"
      then have "squareToFileRank (slice mv 2 4) = (Num (real f), Num (real r))"
        using sq by simp
      from arrowShape_y2 [OF this _ _ _ assms(3), of a i N d] h
      show "y2 (the_arrow (ars ! k)) =
                     Num ((if flipped b then real r else 7 - real r) * 45 + bd + 45 / 2
                          + cos (d * pi / 180) * (((real i + 1) / (real N + 1) - 1 / 2) * 55))"
        unfolding e by simp
    }
  qed
  have c6: "m < length (filter (\<lambda>p. isWhitePiece p = (whiteToMove b = s)) (pieces b))
               \<and> filter (\<lambda>p. isWhitePiece p = (whiteToMove b = s)) (pieces b) ! m = p \<longrightarrow>
                use_y (renderPieces b s ! m)
                  = Num ((if flipped b then 7 - real (rank p) else real (rank p)) * 45 + bd)
                \<and> (rank p = 7 - r \<longrightarrow>
                     use_y (renderPieces b s ! m)
                       = Num ((if flipped b then real r else 7 - real r) * 45 + bd))"
    using renderPieces_nth [of m b s p bd] assms(1,3) by (auto simp: of_nat_diff)
  have c7: "map rank (pieces (fromFen fen b)) =
              concat (map (\<lambda>i. replicate (length (filter (\<lambda>c. digitValue c = None)
                                   (js_split CHR ''/'' (hd (js_split CHR '' '' fen)) ! i))) i)
                        [0..<length (js_split CHR ''/'' (hd (js_split CHR '' '' fen)))])"
    unfolding fromFen_pieces by (rule rank_parseRows)
  show ?thesis
    unfolding Let_def
    by (intro conjI fileRanktoSquare_name [OF assms(1,2)] renderBoard_square [OF assms]
        renderBoard_highlight [OF assms] c4 c5 c6 c7)
qed

theorem square_y_transform_witness:
  "let W = addOutline (OutlineObject \<lparr>square = ''e2'', className = ''outline'', inset = Num 4\<rparr>)
             (addArrow \<lparr>move = Some ''e4e2'', classes = ''arrow'', width = Num 16, angle = Num 0,
                         headLength = Num 20, headWidth = Num 29, dashLength = Num 1000,
                         dashSpace = Num 0, renderAfterPieces = False, offset = Num 1,
                         totalOffsets = Num 2, offsetDirection = Num 0, onlyOuterStroke = None\<rparr>
                (addArrow \<lparr>move = Some ''e2e4'', classes = ''arrow'', width = Num 16,
                            angle = Num 0, headLength = Num 20, headWidth = Num 29,
                            dashLength = Num 1000, dashSpace = Num 0, renderAfterPieces = False,
                            offset = Num 1, totalOffsets = Num 2, offsetDirection = Num 0,
                            onlyOuterStroke = None\<rparr>
                   (addHighlight ''e2'' newBoard)))
   in (1::nat) < 8 \<and> (4::nat) < 8 \<and> border W = Num 0 \<and> \<not> flipped W
    \<and> fileRanktoSquare 1 4 = ''e2''
    \<and> renderBoard W ! 12 = Rect (Num 180) (Num 270) (Num 45) (Num 45) ''square light lastmove''
    \<and> renderOutlines W = Inr [Rect (Num 182) (Num 272) (Num 41) (Num 41) ''outline'']
    \<and> (\<exists>ars. renderArrows W False = Inr ars \<and> length ars = 2
          \<and> y1 (the_arrow (ars ! 0)) = Num (270 + 45 / 2 + 55 / 6)
          \<and> y2 (the_arrow (ars ! 1)) = Num (270 + 45 / 2 + 55 / 6))
    \<and> filter (\<lambda>p. isWhitePiece p = (whiteToMove W = True)) (pieces W) ! 4
        = \<lparr>pieceSymbol = CHR ''P'', rank = 6, file' = 4\<rparr>
    \<and> use_y (renderPieces W True ! 4) = Num 270
    \<and> map rank (pieces (fromFen ''rnbqkbnr/pppppppp/8/8/8/8/PPPPPPPP/RNBQKBNR w'' W))
        = replicate 8 0 @ replicate 8 1 @ replicate 8 6 @ replicate 8 7"
proof -
  define ol where "ol = \<lparr>square = ''e2'', className = ''outline'', inset = Num 4\<rparr>"
  define A1 where "A1 = \<lparr>move = Some ''e2e4'', classes = ''arrow'', width = Num 16,
                            angle = Num 0, headLength = Num 20, headWidth = Num 29,
                            dashLength = Num 1000, dashSpace = Num 0, renderAfterPieces = False,
                            offset = Num 1, totalOffsets = Num 2, offsetDirection = Num 0,
                            onlyOuterStroke = None\<rparr>"
  define A2 where "A2 = \<lparr>move = Some ''e4e2'', classes = ''arrow'', width = Num 16, angle = Num 0,
                         headLength = Num 20, headWidth = Num 29, dashLength = Num 1000,
                         dashSpace = Num 0, renderAfterPieces = False, offset = Num 1,
                         totalOffsets = Num 2, offsetDirection = Num 0, onlyOuterStroke = None\<rparr>"
  define W where "W = addOutline (OutlineObject ol)
                        (addArrow A2 (addArrow A1 (addHighlight ''e2'' newBoard)))"
  define pawn where "pawn = \<lparr>pieceSymbol = CHR ''P'', rank = 6, file' = 4\<rparr>"
  define ARS where "ARS = [ArrowShape (arrowShape W A1 ''e2e4''), ArrowShape (arrowShape W A2 ''e4e2'')]"
  have bd: "border W = Num 0" and fl: "\<not> flipped W" and hs: "highlightedSquares W = {''e2''}"
    and os: "outlinedSquares W = [OutlineObject ol]" and ar: "arrows W = [A1, A2]"
    by (simp_all add: W_def addOutline_object_fields addArrow_fields addHighlight_fields
        newBoard_fields)
  have wm: "whiteToMove W"
    unfolding W_def newBoard_def
    by (simp only: addOutline_object_fields addArrow_fields addHighlight_fields start_whiteToMove)
  have ps: "pieces W = parseRows [''rnbqkbnr'', ''pppppppp'', ''8'', ''8'', ''8'', ''8'',
      ''PPPPPPPP'', ''RNBQKBNR''] 0"
    unfolding W_def newBoard_def
    by (simp only: addOutline_object_fields addArrow_fields addHighlight_fields start_pieces)
  have a1: "\<not> renderAfterPieces A1" "move A1 = Some ''e2e4''" "offset A1 = Num (real 1)"
    "totalOffsets A1 = Num (real 2)" "offsetDirection A1 = Num 0"
    by (simp_all add: A1_def)
  have a2: "\<not> renderAfterPieces A2" "move A2 = Some ''e4e2''" "offset A2 = Num (real 1)"
    "totalOffsets A2 = Num (real 2)" "offsetDirection A2 = Num 0"
    by (simp_all add: A2_def)
  have o: "square ol = ''e2''" "inset ol = Num 4" "className ol = ''outline''"
    by (simp_all add: ol_def)
  have flt: "filter (\<lambda>a. renderAfterPieces a = False) (arrows W) = [A1, A2]"
    by (simp add: ar a1 a2)
  have ro: "renderOutlines W = Inr [outlineRect W ol]"
    by (subst renderOutlines_defined) (simp_all add: os)
  have ra: "renderArrows W False = Inr ARS"
    unfolding ARS_def
    by (subst renderArrows_defined) (simp_all add: ar a1 a2)
  have sl: "slice ''e2e4'' 0 2 = ''e2''" "slice ''e2e4'' 2 4 = ''e4''"
    "slice ''e4e2'' 0 2 = ''e4''" "slice ''e4e2'' 2 4 = ''e2''"
    by (simp_all add: slice_def)
  have white: "filter (\<lambda>p. isWhitePiece p = (whiteToMove W = True)) (pieces W) ! 4 = pawn"
    unfolding ps pawn_def by (simp add: wm digitValue_def isWhitePiece_iff Let_def)
  have wlen: "4 < length (filter (\<lambda>p. isWhitePiece p = (whiteToMove W = True)) (pieces W))"
    using start_pieces_w by (simp add: ps wm)
  note inst = square_y_transform [where r = 1 and f = 4 and b = W and bd = 0
      and fen = "''rnbqkbnr/pppppppp/8/8/8/8/PPPPPPPP/RNBQKBNR w''"
      and els = "[outlineRect W ol]" and j = 0 and ol = ol and ins = 4
      and ars = ARS and after = False and k = 0 and a = A1 and mv = "''e2e4''"
      and i = 1 and N = 2 and d = 0 and m = 4 and s = True and p = pawn, unfolded Let_def]
  note inst2 = square_y_transform [where r = 1 and f = 4 and b = W and bd = 0
      and ars = ARS and after = False and k = 1 and a = A2 and mv = "''e4e2''"
      and i = 1 and N = 2 and d = 0, unfolded Let_def]
  have lt: "(1::nat) < 8" "(4::nat) < 8"
    by simp_all
  note c = inst [OF lt bd]
  have e2: "fileRanktoSquare 1 4 = ''e2''"
    using c [THEN conjunct1] by simp
  have e2': "fileRanktoSquare (Suc 0) 4 = ''e2''"
    using e2 by simp
  have sqr: "renderBoard W ! 12 = Rect (Num 180) (Num 270) (Num 45) (Num 45) ''square light lastmove''"
    using c [THEN conjunct2, THEN conjunct1] by (simp add: e2' hs fl)
  have "[outlineRect W ol] ! 0 = Rect (Num 182) (Num 272) (Num 41) (Num 41) ''outline''"
    using c [THEN conjunct2, THEN conjunct2, THEN conjunct2, THEN conjunct1] ro
    by (simp add: e2' os o fl)
  then have out: "renderOutlines W = Inr [Rect (Num 182) (Num 272) (Num 41) (Num 41) ''outline'']"
    using ro by simp
  have y1: "y1 (the_arrow (ARS ! 0)) = Num (270 + 45 / 2 + 55 / 6)"
    using c [THEN conjunct2, THEN conjunct2, THEN conjunct2, THEN conjunct2, THEN conjunct1]
      ra flt a1
    by (simp add: e2' sl fl)
  have y2: "y2 (the_arrow (ARS ! 1)) = Num (270 + 45 / 2 + 55 / 6)"
    using inst2 [OF lt bd, THEN conjunct2, THEN conjunct2, THEN conjunct2, THEN conjunct2,
        THEN conjunct1] ra flt a2
    by (simp add: e2' sl fl)
  have arr: "\<exists>ars. renderArrows W False = Inr ars \<and> length ars = 2
          \<and> y1 (the_arrow (ars ! 0)) = Num (270 + 45 / 2 + 55 / 6)
          \<and> y2 (the_arrow (ars ! 1)) = Num (270 + 45 / 2 + 55 / 6)"
    using ra y1 y2 by (intro exI [of _ ARS]) (simp add: ARS_def)
  have pc: "use_y (renderPieces W True ! 4) = Num 270"
    using c [THEN conjunct2, THEN conjunct2, THEN conjunct2, THEN conjunct2, THEN conjunct2,
        THEN conjunct1] white wlen
    by (simp add: pawn_def fl)
  have rk: "map rank (pieces (fromFen ''rnbqkbnr/pppppppp/8/8/8/8/PPPPPPPP/RNBQKBNR w'' W))
        = replicate 8 0 @ replicate 8 1 @ replicate 8 6 @ replicate 8 7"
    using c [THEN conjunct2, THEN conjunct2, THEN conjunct2, THEN conjunct2, THEN conjunct2,
        THEN conjunct2]
    by (simp add: digitValue_def eval_nat_numeral)
  have "(1::nat) < 8 \<and> (4::nat) < 8 \<and> border W = Num 0 \<and> \<not> flipped W
    \<and> fileRanktoSquare 1 4 = ''e2''
    \<and> renderBoard W ! 12 = Rect (Num 180) (Num 270) (Num 45) (Num 45) ''square light lastmove''
    \<and> renderOutlines W = Inr [Rect (Num 182) (Num 272) (Num 41) (Num 41) ''outline'']
    \<and> (\<exists>ars. renderArrows W False = Inr ars \<and> length ars = 2
          \<and> y1 (the_arrow (ars ! 0)) = Num (270 + 45 / 2 + 55 / 6)
          \<and> y2 (the_arrow (ars ! 1)) = Num (270 + 45 / 2 + 55 / 6))
    \<and> filter (\<lambda>p. isWhitePiece p = (whiteToMove W = True)) (pieces W) ! 4 = pawn
    \<and> use_y (renderPieces W True ! 4) = Num 270
    \<and> map rank (pieces (fromFen ''rnbqkbnr/pppppppp/8/8/8/8/PPPPPPPP/RNBQKBNR w'' W))
        = replicate 8 0 @ replicate 8 1 @ replicate 8 6 @ replicate 8 7"
    by (intro conjI lt bd fl e2 sqr out arr white pc rk)
  then show ?thesis
    unfolding W_def ol_def A1_def A2_def pawn_def Let_def .
qed

section \<open>The width of an analysis arrow\<close>

lemma arrowWidth_zero_zero:
  "nodes best = Num 0 \<Longrightarrow> nodes v = Num 0 \<Longrightarrow> arrowWidth v best = NaN"
  by (simp add: arrowWidth_def)

lemma arrowWidth_pos_zero:
  "nodes best = Num 0 \<Longrightarrow> nodes v = Num n \<Longrightarrow> 0 < n \<Longrightarrow> arrowWidth v best = PosInf"
  by (simp add: arrowWidth_def)

lemma arrowWidth_finite:
  "nodes best = Num m \<Longrightarrow> m \<noteq> 0 \<Longrightarrow> nodes v = Num n \<Longrightarrow> 0 \<le> n / m \<Longrightarrow>
   arrowWidth v best = Num ((n / m) powr (1 / 1.7) * 15)"
  by (simp add: arrowWidth_def)

lemma thinkingArrow_width:
  assumes "thinkingArrow u us them a = Inr al"
  shows "ply a = 0 \<Longrightarrow>
           width al = arrowWidth (variations u ! variationIdx a) (hd (variations u)) + Num 1"
    and "ply a = 1 \<Longrightarrow>
           width al = arrowWidth (variations u ! variationIdx a) (hd (variations u)) / Num 2.2 + Num 1"
    and "2 \<le> ply a \<Longrightarrow> width al = Num 3"
  using assms
  by (auto simp: thinkingArrow_def Let_def at_index_def split: option.splits if_splits)

lemma arrowKey_eval:
  "at_index (variations u) (variationIdx a) = Some v \<Longrightarrow>
   at_index (js_split CHR '' '' (pvUci v)) (ply a) = Some mv \<Longrightarrow>
   arrowKey u a = Inr (slice mv 0 2, moveToDirectionDeg mv)"
  by (simp add: arrowKey_def arrowMove_def)

text \<open>
  \<^bold>\<open>C3\<close> as stated fails: there is no guard. With a best variation of 0 nodes the ratio is
  \<open>0 / 0\<close>, the scaling law gives NaN and the arrow is added with width NaN (a positive node
  count over 0 gives \<open>Infinity\<close>); the claim has width 0.
\<close>

theorem arrowWidth_zero_best_counterexample:
  "map_sum id (map width \<circ> arrows)
     (renderThinkingarrows \<lparr>variations = [\<lparr>pvUci = ''e2e4'', nodes = Num 0\<rparr>]\<rparr>
        [\<lparr>variationIdx = 0, ply = 0\<rparr>] (clearArrows newBoard)) = Inr [NaN]
   \<and> arrowWidth \<lparr>pvUci = ''e2e4'', nodes = Num 0\<rparr> \<lparr>pvUci = ''e2e4'', nodes = Num 0\<rparr> = NaN
   \<and> arrowWidth \<lparr>pvUci = ''d2d4'', nodes = Num 5\<rparr> \<lparr>pvUci = ''e2e4'', nodes = Num 0\<rparr> = PosInf"
proof -
  define u where "u = \<lparr>variations = [\<lparr>pvUci = ''e2e4'', nodes = Num 0\<rparr>]\<rparr>"
  define a where "a = \<lparr>variationIdx = 0, ply = 0\<rparr>"
  have k: "arrowKey u a = Inr (''e2'', Num 90)"
    by (simp add: arrowKey_def arrowMove_def at_index_def u_def a_def slice_def direction_e2e4)
  have off: "buildArrowOffsets u [a] = Inr ([0 \<mapsto> \<lparr>current = 0, total' = 1\<rparr>], Map.empty)"
    using k by (simp add: buildArrowOffsets_def a_def)
  have w: "arrowWidth \<lparr>pvUci = ''e2e4'', nodes = Num 0\<rparr> \<lparr>pvUci = ''e2e4'', nodes = Num 0\<rparr> = NaN"
    by (simp add: arrowWidth_def)
  have "\<exists>al. thinkingArrow u [0 \<mapsto> \<lparr>current = 0, total' = 1\<rparr>] Map.empty a = Inr al
     \<and> width al = NaN"
    using w by (simp add: thinkingArrow_def at_index_def u_def a_def Let_def)
  then have "map_sum id (map width \<circ> arrows) (renderThinkingarrows u [a] (clearArrows newBoard))
      = Inr [NaN]"
    by (auto simp: renderThinkingarrows_def off addArrow_def clearArrows_def)
  moreover have "arrowWidth \<lparr>pvUci = ''d2d4'', nodes = Num 5\<rparr> \<lparr>pvUci = ''e2e4'', nodes = Num 0\<rparr> = PosInf"
    by (simp add: arrowWidth_def)
  ultimately show ?thesis using w unfolding u_def a_def by simp
qed

text \<open>
  \<^bold>\<open>C3, amended.\<close> The width computation never faults. When the best variation has 0 nodes,
  the scaling-law width is NaN for a variation of 0 nodes and \<open>Infinity\<close> for a variation of
  a positive node count. When the best node count is not 0 (and the ratio is not negative),
  the width is \<open>(variation.nodes / bestVariation.nodes) ** (1 / 1.7) * 15\<close>. An arrow of ply 0
  is added with that width plus 1, an arrow of ply 1 with that width over 2.2 plus 1.
\<close>

theorem arrowWidth_cases:
  "(nodes best = Num 0 \<and> nodes v = Num 0 \<longrightarrow> arrowWidth v best = NaN)
   \<and> (nodes best = Num 0 \<and> nodes v = Num n \<and> 0 < n \<longrightarrow> arrowWidth v best = PosInf)
   \<and> (nodes best = Num m \<and> m \<noteq> 0 \<and> nodes v = Num n \<and> 0 \<le> n / m \<longrightarrow>
        arrowWidth v best = Num ((n / m) powr (1 / 1.7) * 15))
   \<and> (thinkingArrow u us them a = Inr al \<and> ply a = 0 \<longrightarrow>
        width al = arrowWidth (variations u ! variationIdx a) (hd (variations u)) + Num 1)
   \<and> (thinkingArrow u us them a = Inr al \<and> ply a = 1 \<longrightarrow>
        width al = arrowWidth (variations u ! variationIdx a) (hd (variations u)) / Num 2.2 + Num 1)"
  using arrowWidth_zero_zero [of best v] arrowWidth_pos_zero [of best v n]
    arrowWidth_finite [of best m v n] thinkingArrow_width(1,2) [of u us them a al]
  by blast

theorem arrowWidth_cases_witness:
  "arrowWidth \<lparr>pvUci = ''e2e4'', nodes = Num 0\<rparr> \<lparr>pvUci = ''e2e4'', nodes = Num 0\<rparr> = NaN
   \<and> arrowWidth \<lparr>pvUci = ''d2d4'', nodes = Num 5\<rparr> \<lparr>pvUci = ''e2e4'', nodes = Num 0\<rparr> = PosInf
   \<and> arrowWidth \<lparr>pvUci = ''d2d4'', nodes = Num 0\<rparr> \<lparr>pvUci = ''e2e4'', nodes = Num 8\<rparr> = Num 0
   \<and> arrowWidth \<lparr>pvUci = ''e2e4'', nodes = Num 8\<rparr> \<lparr>pvUci = ''e2e4'', nodes = Num 8\<rparr> = Num 15
   \<and> map_sum id width
        (thinkingArrow \<lparr>variations = [\<lparr>pvUci = ''e2e4 e7e5'', nodes = Num 8\<rparr>]\<rparr>
           [0 \<mapsto> \<lparr>current = 0, total' = 1\<rparr>] [0 \<mapsto> \<lparr>current = 0, total' = 1\<rparr>]
           \<lparr>variationIdx = 0, ply = 0\<rparr>) = Inr (Num 16)
   \<and> map_sum id width
        (thinkingArrow \<lparr>variations = [\<lparr>pvUci = ''e2e4 e7e5'', nodes = Num 8\<rparr>]\<rparr>
           [0 \<mapsto> \<lparr>current = 0, total' = 1\<rparr>] [0 \<mapsto> \<lparr>current = 0, total' = 1\<rparr>]
           \<lparr>variationIdx = 0, ply = 1\<rparr>) = Inr (Num (15 / 2.2 + 1))"
proof -
  define u where "u = \<lparr>variations = [\<lparr>pvUci = ''e2e4 e7e5'', nodes = Num 8\<rparr>]\<rparr>"
  define cs :: "nat \<rightharpoonup> Counts" where "cs = [0 \<mapsto> \<lparr>current = 0, total' = 1\<rparr>]"
  have w: "arrowWidth (variations u ! 0) (hd (variations u)) = Num 15"
    by (simp add: u_def arrowWidth_def)
  obtain al0 where al0: "thinkingArrow u cs cs \<lparr>variationIdx = 0, ply = 0\<rparr> = Inr al0"
    by (simp add: thinkingArrow_def at_index_def u_def cs_def Let_def)
  obtain al1 where al1: "thinkingArrow u cs cs \<lparr>variationIdx = 0, ply = 1\<rparr> = Inr al1"
    by (simp add: thinkingArrow_def at_index_def u_def cs_def Let_def)
  have "width al0 = Num 16"
    using arrowWidth_cases [where u = u and us = cs and them = cs and al = al0
        and a = "\<lparr>variationIdx = 0, ply = 0\<rparr>"] al0 w
    by simp
  moreover have "width al1 = Num (15 / 2.2 + 1)"
    using arrowWidth_cases [where u = u and us = cs and them = cs and al = al1
        and a = "\<lparr>variationIdx = 0, ply = 1\<rparr>"] al1 w
    by simp
  ultimately have "map_sum id width (thinkingArrow u cs cs \<lparr>variationIdx = 0, ply = 0\<rparr>) = Inr (Num 16)
    \<and> map_sum id width (thinkingArrow u cs cs \<lparr>variationIdx = 0, ply = 1\<rparr>) = Inr (Num (15 / 2.2 + 1))"
    using al0 al1 by simp
  then show ?thesis
    using
      arrowWidth_cases [where best = "\<lparr>pvUci = ''e2e4'', nodes = Num 0\<rparr>"
        and v = "\<lparr>pvUci = ''e2e4'', nodes = Num 0\<rparr>"]
      arrowWidth_cases [where best = "\<lparr>pvUci = ''e2e4'', nodes = Num 0\<rparr>"
        and v = "\<lparr>pvUci = ''d2d4'', nodes = Num 5\<rparr>" and n = 5]
      arrowWidth_cases [where best = "\<lparr>pvUci = ''e2e4'', nodes = Num 8\<rparr>"
        and v = "\<lparr>pvUci = ''d2d4'', nodes = Num 0\<rparr>" and n = 0 and m = 8]
      arrowWidth_cases [where best = "\<lparr>pvUci = ''e2e4'', nodes = Num 8\<rparr>"
        and v = "\<lparr>pvUci = ''e2e4'', nodes = Num 8\<rparr>" and n = 8 and m = 8]
    unfolding u_def cs_def
    by simp
qed

section \<open>Lanes and offsets\<close>

lemma countLanes_filter:
  "countLanes u (filter (\<lambda>a. ply a < 2) sel) d = countLanes u sel d"
  by (induction sel arbitrary: d) (auto simp: Let_def split: sum.splits)

lemma assignLanes_filter:
  "assignLanes u (filter (\<lambda>a. ply a < 2) sel) d us them = assignLanes u sel d us them"
  by (induction sel arbitrary: d us them) (auto simp: Let_def split: sum.splits option.splits)

lemma buildArrowOffsets_filter:
  "buildArrowOffsets u (filter (\<lambda>a. ply a < 2) sel) = buildArrowOffsets u sel"
  by (simp add: buildArrowOffsets_def countLanes_filter assignLanes_filter cong: sum.case_cong)

lemma addThinkingArrows_arrows:
  "addThinkingArrows u us them sel b = Inr b' \<Longrightarrow>
   \<exists>new. arrows b' = arrows b @ new
        \<and> list_all2 (\<lambda>a al. thinkingArrow u us them a = Inr al) sel new"
proof (induction sel arbitrary: b)
  case Nil
  then show ?case by simp
next
  case (Cons a sel)
  from Cons.prems obtain al where al: "thinkingArrow u us them a = Inr al"
    and rest: "addThinkingArrows u us them sel (addArrow al b) = Inr b'"
    by (auto split: sum.splits)
  from Cons.IH [OF rest] obtain new where
    "arrows b' = arrows (addArrow al b) @ new"
    "list_all2 (\<lambda>a al. thinkingArrow u us them a = Inr al) sel new"
    by blast
  then have "arrows b' = arrows b @ (al # new)
      \<and> list_all2 (\<lambda>a al. thinkingArrow u us them a = Inr al) (a # sel) (al # new)"
    using al by (simp add: addArrow_def)
  then show ?case by blast
qed

lemma thinkingArrow_offsets:
  assumes "thinkingArrow u us them a = Inr al"
  shows "ply a \<noteq> 1 \<Longrightarrow>
           \<exists>c. us (variationIdx a) = Some c \<and> offset al = Num (real (current c))
              \<and> totalOffsets al = Num (real (total' c))"
    and "ply a = 1 \<Longrightarrow>
           \<exists>c. them (variationIdx a) = Some c \<and> offset al = Num (real (current c))
              \<and> totalOffsets al = Num (real (total' c))"
  using assms
  by (auto simp: thinkingArrow_def Let_def split: option.splits if_splits)

lemma shared_lane_example:
  "\<exists>b'. renderThinkingarrows
        \<lparr>variations = [\<lparr>pvUci = ''e2e4 e7e5 g1f3'', nodes = Num 10\<rparr>,
                        \<lparr>pvUci = ''e2e3 e7e5 d2d4'', nodes = Num 5\<rparr>]\<rparr>
        [\<lparr>variationIdx = 0, ply = 0\<rparr>, \<lparr>variationIdx = 1, ply = 0\<rparr>, \<lparr>variationIdx = 1, ply = 2\<rparr>]
        (clearArrows newBoard) = Inr b'
      \<and> map offset (arrows b') = [Num 0, Num 1, Num 1]
      \<and> map totalOffsets (arrows b') = [Num 2, Num 2, Num 2]"
proof -
  define u where "u = \<lparr>variations = [\<lparr>pvUci = ''e2e4 e7e5 g1f3'', nodes = Num 10\<rparr>,
                        \<lparr>pvUci = ''e2e3 e7e5 d2d4'', nodes = Num 5\<rparr>]\<rparr>"
  define a0 where "a0 = \<lparr>variationIdx = 0, ply = 0\<rparr>"
  define a1 where "a1 = \<lparr>variationIdx = 1, ply = 0\<rparr>"
  define a2 where "a2 = \<lparr>variationIdx = 1, ply = 2\<rparr>"
  define us :: "nat \<rightharpoonup> Counts"
    where "us = [0 \<mapsto> \<lparr>current = 0, total' = 2\<rparr>, 1 \<mapsto> \<lparr>current = 1, total' = 2\<rparr>]"
  have k: "arrowKey u a0 = Inr (''e2'', Num 90)" "arrowKey u a1 = Inr (''e2'', Num 90)"
    by (simp_all add: arrowKey_def arrowMove_def at_index_def u_def a0_def a1_def slice_def
        direction_e2e4 direction_e2e3)
  have p: "ply a0 = 0" "ply a1 = 0" "ply a2 = 2" "variationIdx a0 = 0" "variationIdx a1 = 1"
    "variationIdx a2 = 1"
    by (simp_all add: a0_def a1_def a2_def)
  have off: "buildArrowOffsets u [a0, a1, a2] = Inr (us, Map.empty)"
    by (simp add: buildArrowOffsets_def k p us_def numeral_2_eq_2)
  have t0: "\<exists>al. thinkingArrow u us Map.empty a0 = Inr al \<and> offset al = Num 0 \<and> totalOffsets al = Num 2"
    by (simp add: thinkingArrow_def at_index_def u_def p us_def Let_def)
  have t1: "\<exists>al. thinkingArrow u us Map.empty a1 = Inr al \<and> offset al = Num 1 \<and> totalOffsets al = Num 2"
    by (simp add: thinkingArrow_def at_index_def u_def p us_def Let_def)
  have t2: "\<exists>al. thinkingArrow u us Map.empty a2 = Inr al \<and> offset al = Num 1 \<and> totalOffsets al = Num 2"
    by (simp add: thinkingArrow_def at_index_def u_def p us_def Let_def)
  from t0 t1 t2 obtain al0 al1 al2 where
    al: "thinkingArrow u us Map.empty a0 = Inr al0" "thinkingArrow u us Map.empty a1 = Inr al1"
      "thinkingArrow u us Map.empty a2 = Inr al2"
    and o: "offset al0 = Num 0" "offset al1 = Num 1" "offset al2 = Num 1"
      "totalOffsets al0 = Num 2" "totalOffsets al1 = Num 2" "totalOffsets al2 = Num 2"
    by blast
  define B where "B = addArrow al2 (addArrow al1 (addArrow al0 (clearArrows newBoard)))"
  have r: "renderThinkingarrows u [a0, a1, a2] (clearArrows newBoard) = Inr B"
    by (simp add: renderThinkingarrows_def off al B_def)
  have "arrows B = [al0, al1, al2]"
    by (simp add: B_def addArrow_def clearArrows_def)
  then have m: "map offset (arrows B) = [Num 0, Num 1, Num 1]"
    "map totalOffsets (arrows B) = [Num 2, Num 2, Num 2]"
    using o by simp_all
  have "renderThinkingarrows u [a0, a1, a2] (clearArrows newBoard) = Inr B
      \<and> map offset (arrows B) = [Num 0, Num 1, Num 1]
      \<and> map totalOffsets (arrows B) = [Num 2, Num 2, Num 2]"
    using r m by (intro conjI)
  then show ?thesis unfolding u_def a0_def a1_def a2_def by (rule exI)
qed

text \<open>
  \<^bold>\<open>C1\<close> as stated fails. Two variations open with a move from \<^verbatim>\<open>e2\<close> in direction 90
  (\<^verbatim>\<open>e2e4\<close>, \<^verbatim>\<open>e2e3\<close>), so their ply-0 arrows share a lane of two. The ply-2 arrow of the
  second variation is added with offset 1 and totalOffsets 2, not with offset 0 of 1.
\<close>

theorem deep_arrow_offset_counterexample:
  "map_sum id (map offset \<circ> arrows)
     (renderThinkingarrows
        \<lparr>variations = [\<lparr>pvUci = ''e2e4 e7e5 g1f3'', nodes = Num 10\<rparr>,
                        \<lparr>pvUci = ''e2e3 e7e5 d2d4'', nodes = Num 5\<rparr>]\<rparr>
        [\<lparr>variationIdx = 0, ply = 0\<rparr>, \<lparr>variationIdx = 1, ply = 0\<rparr>, \<lparr>variationIdx = 1, ply = 2\<rparr>]
        (clearArrows newBoard)) = Inr [Num 0, Num 1, Num 1]
   \<and> map_sum id (map totalOffsets \<circ> arrows)
     (renderThinkingarrows
        \<lparr>variations = [\<lparr>pvUci = ''e2e4 e7e5 g1f3'', nodes = Num 10\<rparr>,
                        \<lparr>pvUci = ''e2e3 e7e5 d2d4'', nodes = Num 5\<rparr>]\<rparr>
        [\<lparr>variationIdx = 0, ply = 0\<rparr>, \<lparr>variationIdx = 1, ply = 0\<rparr>, \<lparr>variationIdx = 1, ply = 2\<rparr>]
        (clearArrows newBoard)) = Inr [Num 2, Num 2, Num 2]"
proof -
  define r where "r = renderThinkingarrows
        \<lparr>variations = [\<lparr>pvUci = ''e2e4 e7e5 g1f3'', nodes = Num 10\<rparr>,
                        \<lparr>pvUci = ''e2e3 e7e5 d2d4'', nodes = Num 5\<rparr>]\<rparr>
        [\<lparr>variationIdx = 0, ply = 0\<rparr>, \<lparr>variationIdx = 1, ply = 0\<rparr>, \<lparr>variationIdx = 1, ply = 2\<rparr>]
        (clearArrows newBoard)"
  have "\<exists>b'. r = Inr b' \<and> map offset (arrows b') = [Num 0, Num 1, Num 1]
      \<and> map totalOffsets (arrows b') = [Num 2, Num 2, Num 2]"
    unfolding r_def by (rule shared_lane_example)
  then have "map_sum id (map offset \<circ> arrows) r = Inr [Num 0, Num 1, Num 1]
      \<and> map_sum id (map totalOffsets \<circ> arrows) r = Inr [Num 2, Num 2, Num 2]"
    by auto
  then show ?thesis unfolding r_def .
qed

text \<open>
  \<^bold>\<open>C1, amended.\<close> Only arrows of ply 0 and 1 take part in lane grouping: the offsets built
  from a candidate list are those built from its arrows of ply below 2. When
  \<^verbatim>\<open>renderThinkingarrows\<close> returns, it has added one arrow per candidate, in order; an arrow
  of ply 2 or more carries the offset and totalOffsets recorded for the ply-0 arrow of its
  own variation (as that ply-0 arrow does), so it is offset 0 of 1 only when that arrow is
  alone in its lane.
\<close>

theorem deep_arrows_follow_first_move:
  "buildArrowOffsets u (filter (\<lambda>a. ply a < 2) sel) = buildArrowOffsets u sel
   \<and> (renderThinkingarrows u sel b = Inr b' \<longrightarrow>
        (\<exists>us them new.
           buildArrowOffsets u sel = Inr (us, them)
           \<and> arrows b' = arrows b @ new
           \<and> list_all2
               (\<lambda>a al. (ply a = 0 \<or> 2 \<le> ply a) \<longrightarrow>
                  (\<exists>c. us (variationIdx a) = Some c
                       \<and> offset al = Num (real (current c))
                       \<and> totalOffsets al = Num (real (total' c))))
               sel new))"
proof (intro conjI impI)
  show "buildArrowOffsets u (filter (\<lambda>a. ply a < 2) sel) = buildArrowOffsets u sel"
    by (rule buildArrowOffsets_filter)
next
  assume r: "renderThinkingarrows u sel b = Inr b'"
  then obtain us them where off: "buildArrowOffsets u sel = Inr (us, them)"
    and add: "addThinkingArrows u us them sel b = Inr b'"
    by (auto simp: renderThinkingarrows_def split: sum.splits)
  from addThinkingArrows_arrows [OF add] obtain new where
    new: "arrows b' = arrows b @ new"
    "list_all2 (\<lambda>a al. thinkingArrow u us them a = Inr al) sel new"
    by blast
  have "list_all2
               (\<lambda>a al. (ply a = 0 \<or> 2 \<le> ply a) \<longrightarrow>
                  (\<exists>c. us (variationIdx a) = Some c
                       \<and> offset al = Num (real (current c))
                       \<and> totalOffsets al = Num (real (total' c))))
               sel new"
    using new(2)
  proof (rule list_all2_mono)
    fix a al
    assume "thinkingArrow u us them a = Inr al"
    from thinkingArrow_offsets(1) [OF this]
    show "(ply a = 0 \<or> 2 \<le> ply a) \<longrightarrow>
                  (\<exists>c. us (variationIdx a) = Some c
                       \<and> offset al = Num (real (current c))
                       \<and> totalOffsets al = Num (real (total' c)))"
      by auto
  qed
  with off new(1) show "\<exists>us them new.
           buildArrowOffsets u sel = Inr (us, them)
           \<and> arrows b' = arrows b @ new
           \<and> list_all2
               (\<lambda>a al. (ply a = 0 \<or> 2 \<le> ply a) \<longrightarrow>
                  (\<exists>c. us (variationIdx a) = Some c
                       \<and> offset al = Num (real (current c))
                       \<and> totalOffsets al = Num (real (total' c))))
               sel new"
    by blast
qed

theorem deep_arrows_follow_first_move_witness:
  "\<exists>b' us them.
     renderThinkingarrows
        \<lparr>variations = [\<lparr>pvUci = ''e2e4 e7e5 g1f3'', nodes = Num 10\<rparr>,
                        \<lparr>pvUci = ''e2e3 e7e5 d2d4'', nodes = Num 5\<rparr>]\<rparr>
        [\<lparr>variationIdx = 0, ply = 0\<rparr>, \<lparr>variationIdx = 1, ply = 0\<rparr>, \<lparr>variationIdx = 1, ply = 2\<rparr>]
        (clearArrows newBoard) = Inr b'
     \<and> buildArrowOffsets
        \<lparr>variations = [\<lparr>pvUci = ''e2e4 e7e5 g1f3'', nodes = Num 10\<rparr>,
                        \<lparr>pvUci = ''e2e3 e7e5 d2d4'', nodes = Num 5\<rparr>]\<rparr>
        [\<lparr>variationIdx = 0, ply = 0\<rparr>, \<lparr>variationIdx = 1, ply = 0\<rparr>, \<lparr>variationIdx = 1, ply = 2\<rparr>]
        = Inr (us, them)
     \<and> us 1 = Some \<lparr>current = 1, total' = 2\<rparr>
     \<and> map offset (arrows b') = [Num 0, Num 1, Num 1]
     \<and> map totalOffsets (arrows b') = [Num 2, Num 2, Num 2]"
proof -
  define u where "u = \<lparr>variations = [\<lparr>pvUci = ''e2e4 e7e5 g1f3'', nodes = Num 10\<rparr>,
                        \<lparr>pvUci = ''e2e3 e7e5 d2d4'', nodes = Num 5\<rparr>]\<rparr>"
  define sel where "sel = [\<lparr>variationIdx = 0, ply = 0\<rparr>, \<lparr>variationIdx = 1, ply = 0\<rparr>,
                            \<lparr>variationIdx = 1, ply = 2\<rparr>]"
  have "\<exists>b'. renderThinkingarrows u sel (clearArrows newBoard) = Inr b'
      \<and> map offset (arrows b') = [Num 0, Num 1, Num 1]
      \<and> map totalOffsets (arrows b') = [Num 2, Num 2, Num 2]"
    unfolding u_def sel_def by (rule shared_lane_example)
  then obtain b' where
    r: "renderThinkingarrows u sel (clearArrows newBoard) = Inr b'"
    and o: "map offset (arrows b') = [Num 0, Num 1, Num 1]"
      "map totalOffsets (arrows b') = [Num 2, Num 2, Num 2]"
    by (elim exE conjE) (rule that)
  have "\<exists>us them new.
           buildArrowOffsets u sel = Inr (us, them)
           \<and> arrows b' = arrows (clearArrows newBoard) @ new
           \<and> list_all2
               (\<lambda>a al. (ply a = 0 \<or> 2 \<le> ply a) \<longrightarrow>
                  (\<exists>c. us (variationIdx a) = Some c
                       \<and> offset al = Num (real (current c))
                       \<and> totalOffsets al = Num (real (total' c))))
               sel new"
    using deep_arrows_follow_first_move [of u sel "clearArrows newBoard" b', THEN conjunct2] r
    by (rule mp)
  then obtain us them new where
    off: "buildArrowOffsets u sel = Inr (us, them)"
    and new: "arrows b' = arrows (clearArrows newBoard) @ new"
    and all: "list_all2
               (\<lambda>a al. (ply a = 0 \<or> 2 \<le> ply a) \<longrightarrow>
                  (\<exists>c. us (variationIdx a) = Some c
                       \<and> offset al = Num (real (current c))
                       \<and> totalOffsets al = Num (real (total' c))))
               sel new"
    by (elim exE conjE) (rule that)
  have arr: "arrows b' = new" using new by (simp add: clearArrows_def)
  have len: "length new = 3"
    using list_all2_lengthD [OF all] by (simp add: sel_def)
  have "\<exists>c. us 1 = Some c \<and> offset (new ! 2) = Num (real (current c))
                 \<and> totalOffsets (new ! 2) = Num (real (total' c))"
    using list_all2_nthD [OF all, of 2] by (simp add: sel_def)
  then obtain c where c: "us 1 = Some c" "offset (new ! 2) = Num (real (current c))"
    "totalOffsets (new ! 2) = Num (real (total' c))"
    by (elim exE conjE) (rule that)
  have "map offset new ! 2 = Num 1" "map totalOffsets new ! 2 = Num 2"
    using o unfolding arr by simp_all
  then have "offset (new ! 2) = Num 1" "totalOffsets (new ! 2) = Num 2"
    using len by simp_all
  with c have "current c = 1" "total' c = 2" by simp_all
  then have "c = \<lparr>current = 1, total' = 2\<rparr>" by (cases c) simp
  with c(1) have u1: "us 1 = Some \<lparr>current = 1, total' = 2\<rparr>" by simp
  have "renderThinkingarrows u sel (clearArrows newBoard) = Inr b'
     \<and> buildArrowOffsets u sel = Inr (us, them)
     \<and> us 1 = Some \<lparr>current = 1, total' = 2\<rparr>
     \<and> map offset (arrows b') = [Num 0, Num 1, Num 1]
     \<and> map totalOffsets (arrows b') = [Num 2, Num 2, Num 2]"
    using r off u1 o by (intro conjI)
  then have "\<exists>b' us them. renderThinkingarrows u sel (clearArrows newBoard) = Inr b'
     \<and> buildArrowOffsets u sel = Inr (us, them)
     \<and> us 1 = Some \<lparr>current = 1, total' = 2\<rparr>
     \<and> map offset (arrows b') = [Num 0, Num 1, Num 1]
     \<and> map totalOffsets (arrows b') = [Num 2, Num 2, Num 2]"
    by (intro exI)
  then show ?thesis unfolding u_def sel_def .
qed

section \<open>Offsets within a lane\<close>

lemma countLanes_lane:
  "countLanes u sel d = Inr d' \<Longrightarrow>
   d' k = (if filter (inLane u k) sel = [] then d k
           else Some ((case d k of None \<Rightarrow> \<lparr>current = 0, total' = 0\<rparr> | Some v \<Rightarrow> v)
                  \<lparr>total' := total' (case d k of None \<Rightarrow> \<lparr>current = 0, total' = 0\<rparr> | Some v \<Rightarrow> v)
                             + length (filter (inLane u k) sel)\<rparr>))"
proof (induction sel arbitrary: d)
  case Nil
  then show ?case by simp
next
  case (Cons a sel)
  show ?case
  proof (cases "2 \<le> ply a")
    case True
    then have "\<not> inLane u k a" by (simp add: inLane_def)
    moreover from True Cons.prems have "countLanes u sel d = Inr d'" by simp
    ultimately show ?thesis using Cons.IH by simp
  next
    case False
    with Cons.prems obtain ka where ka: "arrowKey u a = Inr ka"
      by (auto split: sum.splits)
    define v where "v = (case d ka of None \<Rightarrow> \<lparr>current = 0, total' = 0\<rparr> | Some v \<Rightarrow> v)"
    from False ka Cons.prems
    have rec: "countLanes u sel (d(ka \<mapsto> v\<lparr>total' := total' v + 1\<rparr>)) = Inr d'"
      by (simp add: Let_def v_def)
    note IH = Cons.IH [OF rec]
    show ?thesis
    proof (cases "k = ka")
      case True
      then have "inLane u k a" using False ka by (simp add: inLane_def)
      then show ?thesis using IH True by (simp add: v_def)
    next
      case False
      then have "\<not> inLane u k a" using ka by (simp add: inLane_def)
      then show ?thesis using IH False by simp
    qed
  qed
qed

lemma assignLanes_frame:
  "assignLanes u sel d us them = Inr (us', them') \<Longrightarrow>
   \<forall>a \<in> set sel. ply a < 2 \<longrightarrow> (variationIdx a, ply a) \<noteq> (variationIdx x, ply x) \<Longrightarrow>
   ply x < 2 \<Longrightarrow>
   offsetsOf us' them' x = offsetsOf us them x"
proof (induction sel arbitrary: d us them)
  case Nil
  then show ?case by simp
next
  case (Cons a sel)
  show ?case
  proof (cases "2 \<le> ply a")
    case True
    with Cons.prems have "assignLanes u sel d us them = Inr (us', them')" by simp
    then show ?thesis using Cons.IH Cons.prems(2,3) by simp
  next
    case False
    with Cons.prems(1) obtain ka va where ka: "arrowKey u a = Inr ka" and va: "d ka = Some va"
      by (auto split: sum.splits option.splits)
    define us1 where "us1 = (if ply a = 0 then us(variationIdx a \<mapsto> va) else us)"
    define them1 where "them1 = (if ply a = 0 then them else them(variationIdx a \<mapsto> va))"
    from False ka va Cons.prems(1)
    have rec: "assignLanes u sel (d(ka \<mapsto> va\<lparr>current := current va + 1\<rparr>)) us1 them1 = Inr (us', them')"
      by (simp add: Let_def us1_def them1_def)
    have "offsetsOf us' them' x = offsetsOf us1 them1 x"
      using Cons.IH [OF rec] Cons.prems(2,3) by simp
    moreover have "offsetsOf us1 them1 x = offsetsOf us them x"
      using Cons.prems(2,3) False by (auto simp: offsetsOf_def us1_def them1_def)
    ultimately show ?thesis by simp
  qed
qed

lemma assignLanes_lane:
  "assignLanes u sel d us them = Inr (us', them') \<Longrightarrow>
   distinct (map (\<lambda>a. (variationIdx a, ply a)) (filter (\<lambda>a. ply a < 2) sel)) \<Longrightarrow>
   d k = Some c \<Longrightarrow>
   map (offsetsOf us' them') (filter (inLane u k) sel)
     = map (\<lambda>i. Some (c\<lparr>current := current c + i\<rparr>)) [0..<length (filter (inLane u k) sel)]"
proof (induction sel arbitrary: d us them c)
  case Nil
  then show ?case by simp
next
  case (Cons a sel)
  show ?case
  proof (cases "2 \<le> ply a")
    case True
    then have "\<not> inLane u k a" by (simp add: inLane_def)
    moreover from True Cons.prems(1) have "assignLanes u sel d us them = Inr (us', them')" by simp
    moreover from True Cons.prems(2)
    have "distinct (map (\<lambda>a. (variationIdx a, ply a)) (filter (\<lambda>a. ply a < 2) sel))" by simp
    ultimately show ?thesis using Cons.IH Cons.prems(3) by simp
  next
    case False
    with Cons.prems(1) obtain ka va where ka: "arrowKey u a = Inr ka" and va: "d ka = Some va"
      by (auto split: sum.splits option.splits)
    define us1 where "us1 = (if ply a = 0 then us(variationIdx a \<mapsto> va) else us)"
    define them1 where "them1 = (if ply a = 0 then them else them(variationIdx a \<mapsto> va))"
    define d1 where "d1 = d(ka \<mapsto> va\<lparr>current := current va + 1\<rparr>)"
    from False ka va Cons.prems(1)
    have rec: "assignLanes u sel d1 us1 them1 = Inr (us', them')"
      by (simp add: Let_def us1_def them1_def d1_def)
    from False Cons.prems(2)
    have nin: "(variationIdx a, ply a)
        \<notin> (\<lambda>a. (variationIdx a, ply a)) ` set (filter (\<lambda>a. ply a < 2) sel)"
      and dist: "distinct (map (\<lambda>a. (variationIdx a, ply a)) (filter (\<lambda>a. ply a < 2) sel))"
      by simp_all
    have fresh: "\<forall>x \<in> set sel. ply x < 2 \<longrightarrow> (variationIdx x, ply x) \<noteq> (variationIdx a, ply a)"
    proof (intro ballI impI notI)
      fix x assume x: "x \<in> set sel" "ply x < 2"
        and eq: "(variationIdx x, ply x) = (variationIdx a, ply a)"
      from x have "x \<in> set (filter (\<lambda>a. ply a < 2) sel)" by simp
      then have "(variationIdx x, ply x)
          \<in> (\<lambda>a. (variationIdx a, ply a)) ` set (filter (\<lambda>a. ply a < 2) sel)"
        by (rule imageI)
      with eq nin show False by simp
    qed
    show ?thesis
    proof (cases "k = ka")
      case True
      then have inl: "inLane u k a" using False ka by (simp add: inLane_def)
      have c: "va = c" using va Cons.prems(3) True by simp
      have "offsetsOf us' them' a = offsetsOf us1 them1 a"
        using assignLanes_frame [OF rec fresh] False by simp
      also have "\<dots> = Some c"
        using c by (simp add: offsetsOf_def us1_def them1_def)
      finally have hd: "offsetsOf us' them' a = Some c" .
      have "d1 k = Some (c\<lparr>current := current c + 1\<rparr>)"
        using True c by (simp add: d1_def)
      from Cons.IH [OF rec dist this]
      have tl: "map (offsetsOf us' them') (filter (inLane u k) sel)
          = map (\<lambda>i. Some (c\<lparr>current := current c + Suc i\<rparr>)) [0..<length (filter (inLane u k) sel)]"
        by simp
      have "[0..<Suc (length (filter (inLane u k) sel))]
          = 0 # map Suc [0..<length (filter (inLane u k) sel)]"
        by (simp add: upt_conv_Cons map_Suc_upt del: upt_Suc)
      then show ?thesis using inl hd tl by (simp add: comp_def del: upt_Suc)
    next
      case False
      then have "\<not> inLane u k a" using ka by (simp add: inLane_def)
      moreover have "d1 k = Some c" using False Cons.prems(3) by (simp add: d1_def)
      ultimately show ?thesis using Cons.IH [OF rec dist] by simp
    qed
  qed
qed

lemma buildArrowOffsets_lane:
  assumes "buildArrowOffsets u sel = Inr (us, them)"
    and "distinct (map (\<lambda>a. (variationIdx a, ply a)) (filter (\<lambda>a. ply a < 2) sel))"
  shows "map (offsetsOf us them) (filter (inLane u k) sel)
         = map (\<lambda>i. Some \<lparr>current = i, total' = length (filter (inLane u k) sel)\<rparr>)
             [0..<length (filter (inLane u k) sel)]"
proof (cases "filter (inLane u k) sel = []")
  case True
  then show ?thesis by simp
next
  case False
  from assms(1) obtain d where d: "countLanes u sel Map.empty = Inr d"
    and asg: "assignLanes u sel d Map.empty Map.empty = Inr (us, them)"
    by (auto simp: buildArrowOffsets_def split: sum.splits)
  have "d k = Some \<lparr>current = 0, total' = length (filter (inLane u k) sel)\<rparr>"
    using countLanes_lane [OF d, of k] False by simp
  from assignLanes_lane [OF asg assms(2) this] show ?thesis by simp
qed

lemma repeated_candidate_example:
  "filter (inLane \<lparr>variations = [\<lparr>pvUci = ''e2e4 e7e5'', nodes = Num 10\<rparr>]\<rparr> (''e2'', Num 90))
       [\<lparr>variationIdx = 0, ply = 0\<rparr>, \<lparr>variationIdx = 0, ply = 0\<rparr>]
     = [\<lparr>variationIdx = 0, ply = 0\<rparr>, \<lparr>variationIdx = 0, ply = 0\<rparr>]
   \<and> (\<exists>b'. renderThinkingarrows \<lparr>variations = [\<lparr>pvUci = ''e2e4 e7e5'', nodes = Num 10\<rparr>]\<rparr>
          [\<lparr>variationIdx = 0, ply = 0\<rparr>, \<lparr>variationIdx = 0, ply = 0\<rparr>] (clearArrows newBoard) = Inr b'
        \<and> map offset (arrows b') = [Num 1, Num 1]
        \<and> map totalOffsets (arrows b') = [Num 2, Num 2])"
proof -
  define u where "u = \<lparr>variations = [\<lparr>pvUci = ''e2e4 e7e5'', nodes = Num 10\<rparr>]\<rparr>"
  define a where "a = \<lparr>variationIdx = 0, ply = 0\<rparr>"
  define us :: "nat \<rightharpoonup> Counts" where "us = [0 \<mapsto> \<lparr>current = 1, total' = 2\<rparr>]"
  have k: "arrowKey u a = Inr (''e2'', Num 90)"
    by (simp add: arrowKey_def arrowMove_def at_index_def u_def a_def slice_def direction_e2e4)
  have p: "ply a = 0" "variationIdx a = 0"
    by (simp_all add: a_def)
  have off: "buildArrowOffsets u [a, a] = Inr (us, Map.empty)"
    by (simp add: buildArrowOffsets_def k p numeral_2_eq_2 us_def)
  have f: "filter (inLane u (''e2'', Num 90)) [a, a] = [a, a]"
    by (simp add: inLane_def k p)
  have "\<exists>al. thinkingArrow u us Map.empty a = Inr al \<and> offset al = Num 1 \<and> totalOffsets al = Num 2"
    by (simp add: thinkingArrow_def at_index_def u_def p us_def Let_def)
  then obtain al where al: "thinkingArrow u us Map.empty a = Inr al"
    and o: "offset al = Num 1" "totalOffsets al = Num 2"
    by (elim exE conjE) (rule that)
  define B where "B = addArrow al (addArrow al (clearArrows newBoard))"
  have r: "renderThinkingarrows u [a, a] (clearArrows newBoard) = Inr B"
    by (simp add: renderThinkingarrows_def off al B_def)
  have "arrows B = [al, al]"
    by (simp add: B_def addArrow_def clearArrows_def)
  then have m: "map offset (arrows B) = [Num 1, Num 1]"
    "map totalOffsets (arrows B) = [Num 2, Num 2]"
    using o by simp_all
  have "renderThinkingarrows u [a, a] (clearArrows newBoard) = Inr B
      \<and> map offset (arrows B) = [Num 1, Num 1]
      \<and> map totalOffsets (arrows B) = [Num 2, Num 2]"
    using r m by (intro conjI)
  then have "\<exists>b'. renderThinkingarrows u [a, a] (clearArrows newBoard) = Inr b'
      \<and> map offset (arrows b') = [Num 1, Num 1]
      \<and> map totalOffsets (arrows b') = [Num 2, Num 2]"
    by (rule exI)
  with f show ?thesis unfolding u_def a_def by (intro conjI)
qed

text \<open>
  \<^bold>\<open>C5\<close> as stated fails for a candidate list that names the same variation and ply twice.
  The two candidates form a lane of two, but the allocator stores its result under the
  variation index, so the second assignment replaces the first: both arrows are added with
  offset 1 of 2, not with offsets 0 and 1.
\<close>

theorem repeated_candidate_counterexample:
  "length (filter (inLane \<lparr>variations = [\<lparr>pvUci = ''e2e4 e7e5'', nodes = Num 10\<rparr>]\<rparr> (''e2'', Num 90))
       [\<lparr>variationIdx = 0, ply = 0\<rparr>, \<lparr>variationIdx = 0, ply = 0\<rparr>]) = 2
   \<and> map_sum id (map offset \<circ> arrows)
        (renderThinkingarrows \<lparr>variations = [\<lparr>pvUci = ''e2e4 e7e5'', nodes = Num 10\<rparr>]\<rparr>
           [\<lparr>variationIdx = 0, ply = 0\<rparr>, \<lparr>variationIdx = 0, ply = 0\<rparr>] (clearArrows newBoard))
       = Inr [Num 1, Num 1]
   \<and> map_sum id (map totalOffsets \<circ> arrows)
        (renderThinkingarrows \<lparr>variations = [\<lparr>pvUci = ''e2e4 e7e5'', nodes = Num 10\<rparr>]\<rparr>
           [\<lparr>variationIdx = 0, ply = 0\<rparr>, \<lparr>variationIdx = 0, ply = 0\<rparr>] (clearArrows newBoard))
       = Inr [Num 2, Num 2]"
proof -
  define u where "u = \<lparr>variations = [\<lparr>pvUci = ''e2e4 e7e5'', nodes = Num 10\<rparr>]\<rparr>"
  define sel where "sel = [\<lparr>variationIdx = 0, ply = 0\<rparr>, \<lparr>variationIdx = 0, ply = 0\<rparr>]"
  define r where "r = renderThinkingarrows u sel (clearArrows newBoard)"
  have f: "filter (inLane u (''e2'', Num 90)) sel = sel"
    unfolding u_def sel_def by (rule repeated_candidate_example [THEN conjunct1])
  have "\<exists>b'. r = Inr b' \<and> map offset (arrows b') = [Num 1, Num 1]
        \<and> map totalOffsets (arrows b') = [Num 2, Num 2]"
    unfolding r_def u_def sel_def by (rule repeated_candidate_example [THEN conjunct2])
  then have AB: "map_sum id (map offset \<circ> arrows) r = Inr [Num 1, Num 1]
      \<and> map_sum id (map totalOffsets \<circ> arrows) r = Inr [Num 2, Num 2]"
    by auto
  have L: "length (filter (inLane u (''e2'', Num 90)) sel) = 2"
    unfolding f by (simp add: sel_def)
  have "length (filter (inLane u (''e2'', Num 90)) sel) = 2
      \<and> map_sum id (map offset \<circ> arrows) r = Inr [Num 1, Num 1]
      \<and> map_sum id (map totalOffsets \<circ> arrows) r = Inr [Num 2, Num 2]"
    using L AB by simp
  then show ?thesis unfolding r_def u_def sel_def .
qed

text \<open>
  \<^bold>\<open>C5, amended.\<close> For every ordered candidate list in which no variation and ply (of the
  plies 0 and 1) is named twice, and on which the allocator returns: for every lane, the
  entries recorded for the \<open>N\<close> arrows of the lane, read in the order the arrows were
  supplied, carry the offset indices \<open>0, 1, \<dots>, N - 1\<close> and all carry the total \<open>N\<close>. These
  entries are the offset and totalOffsets of the arrows that \<^verbatim>\<open>renderThinkingarrows\<close> adds
  for the candidates of ply 0 and 1.
\<close>

theorem lane_offsets:
  assumes "buildArrowOffsets u sel = Inr (us, them)"
    and "distinct (map (\<lambda>a. (variationIdx a, ply a)) (filter (\<lambda>a. ply a < 2) sel))"
  shows "map (offsetsOf us them) (filter (inLane u k) sel)
           = map (\<lambda>i. Some \<lparr>current = i, total' = length (filter (inLane u k) sel)\<rparr>)
               [0..<length (filter (inLane u k) sel)]
         \<and> (thinkingArrow u us them a = Inr al \<and> ply a < 2 \<longrightarrow>
              (\<exists>c. offsetsOf us them a = Some c
                   \<and> offset al = Num (real (current c))
                   \<and> totalOffsets al = Num (real (total' c))))"
proof (intro conjI impI)
  show "map (offsetsOf us them) (filter (inLane u k) sel)
           = map (\<lambda>i. Some \<lparr>current = i, total' = length (filter (inLane u k) sel)\<rparr>)
               [0..<length (filter (inLane u k) sel)]"
    by (rule buildArrowOffsets_lane [OF assms])
next
  assume h: "thinkingArrow u us them a = Inr al \<and> ply a < 2"
  then have t: "thinkingArrow u us them a = Inr al" and p: "ply a < 2"
    by simp_all
  show "\<exists>c. offsetsOf us them a = Some c
                   \<and> offset al = Num (real (current c))
                   \<and> totalOffsets al = Num (real (total' c))"
  proof (cases "ply a = 1")
    case True
    then show ?thesis using thinkingArrow_offsets(2) [OF t] by (simp add: offsetsOf_def)
  next
    case False
    then have "ply a = 0" using p by simp
    then show ?thesis using thinkingArrow_offsets(1) [OF t] by (simp add: offsetsOf_def)
  qed
qed

lemma direction_rook_a1:
  "moveToDirectionDeg ''a1a2'' = Num 90" "moveToDirectionDeg ''a1a3'' = Num 90"
  "moveToDirectionDeg ''a1a4'' = Num 90"
  by (simp_all add: moveToDirectionDeg_def square_simps Math_PI_def atan2_def)

theorem lane_offsets_witness:
  "\<exists>us them.
     buildArrowOffsets
       \<lparr>variations = [\<lparr>pvUci = ''a1a2'', nodes = Num 9\<rparr>, \<lparr>pvUci = ''a1a3'', nodes = Num 8\<rparr>,
                       \<lparr>pvUci = ''a1a4'', nodes = Num 7\<rparr>]\<rparr>
       [\<lparr>variationIdx = 0, ply = 0\<rparr>, \<lparr>variationIdx = 1, ply = 0\<rparr>, \<lparr>variationIdx = 2, ply = 0\<rparr>]
       = Inr (us, them)
     \<and> map (offsetsOf us them)
         [\<lparr>variationIdx = 0, ply = 0\<rparr>, \<lparr>variationIdx = 1, ply = 0\<rparr>, \<lparr>variationIdx = 2, ply = 0\<rparr>]
       = [Some \<lparr>current = 0, total' = 3\<rparr>, Some \<lparr>current = 1, total' = 3\<rparr>,
          Some \<lparr>current = 2, total' = 3\<rparr>]
     \<and> map_sum id offset
         (thinkingArrow
            \<lparr>variations = [\<lparr>pvUci = ''a1a2'', nodes = Num 9\<rparr>, \<lparr>pvUci = ''a1a3'', nodes = Num 8\<rparr>,
                            \<lparr>pvUci = ''a1a4'', nodes = Num 7\<rparr>]\<rparr>
            us them \<lparr>variationIdx = 1, ply = 0\<rparr>) = Inr (Num 1)
     \<and> map_sum id totalOffsets
         (thinkingArrow
            \<lparr>variations = [\<lparr>pvUci = ''a1a2'', nodes = Num 9\<rparr>, \<lparr>pvUci = ''a1a3'', nodes = Num 8\<rparr>,
                            \<lparr>pvUci = ''a1a4'', nodes = Num 7\<rparr>]\<rparr>
            us them \<lparr>variationIdx = 1, ply = 0\<rparr>) = Inr (Num 3)"
proof -
  define u where "u = \<lparr>variations = [\<lparr>pvUci = ''a1a2'', nodes = Num 9\<rparr>,
     \<lparr>pvUci = ''a1a3'', nodes = Num 8\<rparr>, \<lparr>pvUci = ''a1a4'', nodes = Num 7\<rparr>]\<rparr>"
  define a0 where "a0 = \<lparr>variationIdx = 0, ply = 0\<rparr>"
  define a1 where "a1 = \<lparr>variationIdx = 1, ply = 0\<rparr>"
  define a2 where "a2 = \<lparr>variationIdx = 2, ply = 0\<rparr>"
  have k: "arrowKey u a0 = Inr (''a1'', Num 90)" "arrowKey u a1 = Inr (''a1'', Num 90)"
    "arrowKey u a2 = Inr (''a1'', Num 90)"
    by (simp_all add: arrowKey_def arrowMove_def at_index_def u_def a0_def a1_def a2_def slice_def
        direction_rook_a1)
  have p: "ply a0 = 0" "ply a1 = 0" "ply a2 = 0" "variationIdx a0 = 0" "variationIdx a1 = 1"
    "variationIdx a2 = 2"
    by (simp_all add: a0_def a1_def a2_def)
  have "\<exists>us them. buildArrowOffsets u [a0, a1, a2] = Inr (us, them)"
    by (simp add: buildArrowOffsets_def k p)
  then obtain us them where off: "buildArrowOffsets u [a0, a1, a2] = Inr (us, them)"
    by (elim exE)
  have dist: "distinct (map (\<lambda>a. (variationIdx a, ply a)) (filter (\<lambda>a. ply a < 2) [a0, a1, a2]))"
    by (simp add: p)
  have f: "filter (inLane u (''a1'', Num 90)) [a0, a1, a2] = [a0, a1, a2]"
    by (simp add: inLane_def k p)
  note inst = lane_offsets [OF off dist, of "(''a1'', Num 90)" a1, unfolded f]
  have m: "map (offsetsOf us them) [a0, a1, a2]
      = [Some \<lparr>current = 0, total' = 3\<rparr>, Some \<lparr>current = 1, total' = 3\<rparr>,
         Some \<lparr>current = 2, total' = 3\<rparr>]"
    using inst [THEN conjunct1] by (simp add: upt_rec_numeral)
  then have us1: "us 1 = Some \<lparr>current = 1, total' = 3\<rparr>"
    by (simp add: offsetsOf_def p)
  have "\<exists>al. thinkingArrow u us them a1 = Inr al"
    using us1 by (simp add: thinkingArrow_def at_index_def u_def p Let_def)
  then obtain al where al: "thinkingArrow u us them a1 = Inr al"
    by (elim exE)
  have "\<exists>c. offsetsOf us them a1 = Some c
                   \<and> offset al = Num (real (current c))
                   \<and> totalOffsets al = Num (real (total' c))"
    using inst [THEN conjunct2]  al p by simp
  then have "offset al = Num 1" "totalOffsets al = Num 3"
    using us1 by (auto simp: offsetsOf_def p)
  then have t: "map_sum id offset (thinkingArrow u us them a1) = Inr (Num 1)"
    "map_sum id totalOffsets (thinkingArrow u us them a1) = Inr (Num 3)"
    using al by simp_all
  have "buildArrowOffsets u [a0, a1, a2] = Inr (us, them)
     \<and> map (offsetsOf us them) [a0, a1, a2]
       = [Some \<lparr>current = 0, total' = 3\<rparr>, Some \<lparr>current = 1, total' = 3\<rparr>,
          Some \<lparr>current = 2, total' = 3\<rparr>]
     \<and> map_sum id offset (thinkingArrow u us them a1) = Inr (Num 1)
     \<and> map_sum id totalOffsets (thinkingArrow u us them a1) = Inr (Num 3)"
    using off m t by (intro conjI)
  then show ?thesis unfolding u_def a0_def a1_def a2_def by (intro exI)
qed

end
